theory Spec2Isabelle
  imports Complex_Main "HOL-Library.AList" "HOL-Library.Multiset"
begin

section \<open>Values, errors and persistent maps\<close>

text \<open>
  The exceptions that the report code of \<^verbatim>\<open>bowtie/_report.py\<close> can raise.
  \<^verbatim>\<open>EmptyReport\<close> and \<^verbatim>\<open>_InvalidBowtieReport\<close> are the module's own classes (the latter
  carries its message); the others are Python's built-in exceptions.
\<close>

datatype error =
    EmptyReport
  | InvalidBowtieReport string
  | KeyError
  | TypeError
  | ValueError
  | AttributeError
  | IndexError
  | ZeroDivisionError
  | OverflowError

text \<open>
  A decoded JSON value, as \<^verbatim>\<open>json.loads\<close> produces it. A \<^verbatim>\<open>dict\<close> is an association list
  read through \<open>map_of\<close>; its list order is the dict's insertion order. \<open>JFloat\<close> holds the
  value of a finite float.
\<close>

datatype json =
    JNull
  | JBool bool
  | JInt int
  | JFloat rat
  | JStr string
  | JList "json list"
  | JObject "(string \<times> json) list"

type_synonym pydict = "(string \<times> json) list"

text \<open>
  \<^verbatim>\<open>rpds.HashTrieMap\<close>: a persistent map. It is represented by an association list with
  \<open>map_of\<close> as lookup and \<open>AList.update\<close> as \<^verbatim>\<open>insert\<close>; no operation below depends on the
  order of the list (the only iteration over such a map, in \<open>cases_with_results\<close>, sorts).
\<close>

type_synonym ('k, 'v) HashTrieMap = "('k \<times> 'v) list"

definition hget :: "('k, 'v) HashTrieMap \<Rightarrow> 'k \<Rightarrow> 'v option" where
  "hget m k = map_of m k"

definition hcontains :: "'k \<Rightarrow> ('k, 'v) HashTrieMap \<Rightarrow> bool" where
  "hcontains k m = (map_of m k \<noteq> None)"

definition hinsert :: "'k \<Rightarrow> 'v \<Rightarrow> ('k, 'v) HashTrieMap \<Rightarrow> ('k, 'v) HashTrieMap" where
  "hinsert k v m = AList.update k v m"

text \<open>\<^verbatim>\<open>m.get(k, default)\<close>.\<close>

definition hget_default :: "('k, 'v) HashTrieMap \<Rightarrow> 'k \<Rightarrow> 'v \<Rightarrow> 'v" where
  "hget_default m k d = (case map_of m k of None \<Rightarrow> d | Some v \<Rightarrow> v)"

subsection \<open>Rendering integers\<close>

text \<open>\<^verbatim>\<open>str(n)\<close> of an \<^verbatim>\<open>int\<close>, as an f-string or \<^verbatim>\<open>%d\<close> renders it.\<close>

definition digit_char :: "nat \<Rightarrow> char" where
  "digit_char d = (''0123456789abcdef'' ! d)"

function digits :: "nat \<Rightarrow> nat \<Rightarrow> string" where
  "digits b n = (if b < 2 \<or> n < b then [digit_char n] else digits b (n div b) @ [digit_char (n mod b)])"
  by pat_completeness auto
termination
  by (relation "measure (\<lambda>(b, n). n)") auto

declare digits.simps [simp del]

definition str_int :: "int \<Rightarrow> string" where
  "str_int n = (if n < 0 then CHR ''-'' # digits 10 (nat (- n)) else digits 10 (nat n))"

section \<open>Test cases and results\<close>

text \<open>
  \<^verbatim>\<open>Seq\<close>, \<^verbatim>\<open>TestCase\<close>, \<^verbatim>\<open>Test\<close> and the three result classes are imported by the report
  module from \<^verbatim>\<open>bowtie._commands\<close>.

  Modelled from the spec: the types of \<^verbatim>\<open>bowtie._commands\<close>. A \<open>Seq\<close> is an integer; a test
  case has a schema, a description and an ordered sequence of tests; a result is one of
  \<^verbatim>\<open>CaseResult{implementation, seq, ordered per-test outcomes}\<close>,
  \<^verbatim>\<open>CaseErrored{implementation, seq, context, caught-flag}\<close> and
  \<^verbatim>\<open>CaseSkipped{implementation, seq, reason}\<close>.
\<close>

type_synonym Seq = int

record Test =
  instance_of :: json
  valid :: bool

record TestCase =
  description :: json
  schema :: json
  tests :: "Test list"

datatype AnyTestResult = TestPassed | TestFailed | TestErrored | TestSkipped

datatype AnyCaseResult =
    CaseResult (implementation: string) (seq: Seq) (outcomes: "AnyTestResult list")
  | CaseErrored (implementation: string) (seq: Seq) (error_context: json) (caught: bool)
  | CaseSkipped (implementation: string) (seq: Seq) (reason: json)

record Count =
  failed_tests :: int
  errored_tests :: int
  skipped_tests :: int

text \<open>\<^verbatim>\<open>Count()\<close>: every field defaults to zero.\<close>

definition Count0 :: Count where
  "Count0 = \<lparr>failed_tests = 0, errored_tests = 0, skipped_tests = 0\<rparr>"

definition unsuccessful_tests :: "Count \<Rightarrow> int" where
  "unsuccessful_tests c = errored_tests c + failed_tests c + skipped_tests c"

text \<open>
  Modelled from the spec: the method \<^verbatim>\<open>be_counted\<close> of the result classes, which is defined
  in \<^verbatim>\<open>bowtie._commands\<close>. Each test-level outcome of a \<^verbatim>\<open>CaseResult\<close> increments exactly one
  of failed, errored, skipped, and a passing outcome increments nothing; a \<^verbatim>\<open>CaseErrored\<close>
  increments errored by one; a \<^verbatim>\<open>CaseSkipped\<close> increments skipped by one.
\<close>

fun count_outcome :: "Count \<Rightarrow> AnyTestResult \<Rightarrow> Count" where
  "count_outcome c TestPassed = c"
| "count_outcome c TestFailed = c\<lparr>failed_tests := failed_tests c + 1\<rparr>"
| "count_outcome c TestErrored = c\<lparr>errored_tests := errored_tests c + 1\<rparr>"
| "count_outcome c TestSkipped = c\<lparr>skipped_tests := skipped_tests c + 1\<rparr>"

fun be_counted :: "AnyCaseResult \<Rightarrow> Count \<Rightarrow> Count" where
  "be_counted (CaseResult i s outs) c = foldl count_outcome c outs"
| "be_counted (CaseErrored i s ctx cgt) c = c\<lparr>errored_tests := errored_tests c + 1\<rparr>"
| "be_counted (CaseSkipped i s why) c = c\<lparr>skipped_tests := skipped_tests c + 1\<rparr>"

section \<open>Summary\<close>

record Summary =
  results :: "(Seq, (string, AnyCaseResult) HashTrieMap) HashTrieMap"
  by_implementation :: "(string, Count) HashTrieMap"

text \<open>\<^verbatim>\<open>Summary()\<close>: both maps default to the empty map.\<close>

definition Summary0 :: Summary where
  "Summary0 = \<lparr>results = [], by_implementation = []\<rparr>"

text \<open>\<^verbatim>\<open>Summary.__getitem__\<close>: indexing a \<^verbatim>\<open>HashTrieMap\<close> by a missing key raises \<^verbatim>\<open>KeyError\<close>.\<close>

definition Summary_getitem :: "Summary \<Rightarrow> Seq \<Rightarrow> error + (string, AnyCaseResult) HashTrieMap" where
  "Summary_getitem self sq = (case hget (results self) sq of None \<Rightarrow> Inl KeyError | Some r \<Rightarrow> Inr r)"

definition with_result :: "Summary \<Rightarrow> AnyCaseResult \<Rightarrow> error + Summary" where
  "with_result self result =
     (let sq = seq result;
          res = hget_default (results self) sq [];
          impl = implementation result
      in if hcontains impl res
         then Inl (InvalidBowtieReport (''Duplicate result for case ID '' @ str_int sq @ ''!''))
         else
           let count = hget_default (by_implementation self) impl Count0
           in Inr (self\<lparr>by_implementation := hinsert impl (be_counted result count) (by_implementation self),
                        results := hinsert sq (hinsert impl result res) (results self)\<rparr>))"

text \<open>The result stored for a (Seq, implementation) pair, if any.\<close>

definition result_at :: "Summary \<Rightarrow> Seq \<Rightarrow> string \<Rightarrow> AnyCaseResult option" where
  "result_at s sq impl = (case hget (results s) sq of None \<Rightarrow> None | Some r \<Rightarrow> hget r impl)"

section \<open>Run metadata\<close>

text \<open>
  \<^verbatim>\<open>url.URL\<close> belongs to an external library. A parsed URL is identified with the text it was
  parsed from: \<^verbatim>\<open>URL.parse\<close> accepts every string, and two parsed URLs are equal exactly when
  their texts are. Applied to a decoded value that is not a string it is a \<^verbatim>\<open>TypeError\<close>.
\<close>

datatype URL = URL string

definition URL_parse :: "string \<Rightarrow> URL" where
  "URL_parse s = URL s"

definition URL_parse_value :: "json \<Rightarrow> error + URL" where
  "URL_parse_value v = (case v of JStr s \<Rightarrow> Inr (URL_parse s) | _ \<Rightarrow> Inl TypeError)"

definition DIALECT_URI_TO_SHORTNAME :: "(URL \<times> string) list" where
  "DIALECT_URI_TO_SHORTNAME =
     [(URL_parse ''https://json-schema.org/draft/2020-12/schema'', ''Draft 2020-12''),
      (URL_parse ''https://json-schema.org/draft/2019-09/schema'', ''Draft 2019-09''),
      (URL_parse ''http://json-schema.org/draft-07/schema#'', ''Draft 7''),
      (URL_parse ''http://json-schema.org/draft-06/schema#'', ''Draft 6''),
      (URL_parse ''http://json-schema.org/draft-04/schema#'', ''Draft 4''),
      (URL_parse ''http://json-schema.org/draft-03/schema#'', ''Draft 3'')]"

text \<open>A \<^verbatim>\<open>datetime\<close>, kept as the ISO-8601 text that \<^verbatim>\<open>datetime.fromisoformat\<close> accepted.\<close>

datatype datetime = Datetime string

text \<open>
  \<^verbatim>\<open>started\<close> and \<^verbatim>\<open>bowtie_version\<close> have defaults that are not functions of the input (the
  clock at construction, the installed package version): \<open>None\<close> stands for the default.
  \<open>implementations_map\<close> is the attribute \<^verbatim>\<open>_implementations\<close>, \<open>metadata_dict\<close> the attribute
  \<^verbatim>\<open>metadata\<close>; neither is validated on construction, so both hold any decoded value.
\<close>

record RunMetadata =
  dialect :: URL
  implementations_map :: json
  bowtie_version :: "json option"
  metadata_dict :: json
  started :: "datetime option"

text \<open>
  What the report module calls and this development does not define: \<^verbatim>\<open>datetime.fromisoformat\<close>
  of the standard library, and the decoders of \<^verbatim>\<open>bowtie._commands\<close>, namely
  \<^verbatim>\<open>TestCase.from_dict(**case)\<close> (with the dialect already stored in the payload),
  \<^verbatim>\<open>CaseErrored(**data)\<close>, \<^verbatim>\<open>CaseSkipped(**skip)\<close> and \<^verbatim>\<open>CaseResult.from_dict(data)\<close>, and the
  attribute \<^verbatim>\<open>results\<close> of a \<^verbatim>\<open>CaseErrored\<close> or \<^verbatim>\<open>CaseSkipped\<close>, which the data model of the
  spec does not list. They are parameters; each may raise.
\<close>

record env =
  fromisoformat :: "json \<Rightarrow> error + datetime"
  TestCase_from_dict :: "URL \<Rightarrow> json \<Rightarrow> error + TestCase"
  CaseErrored_init :: "pydict \<Rightarrow> error + AnyCaseResult"
  CaseSkipped_init :: "pydict \<Rightarrow> error + AnyCaseResult"
  CaseResult_from_dict :: "pydict \<Rightarrow> error + AnyCaseResult"
  results_of_unrun :: "AnyCaseResult \<Rightarrow> error + AnyTestResult list"

text \<open>
  \<^verbatim>\<open>RunMetadata.from_dict(**header)\<close>. Binding the arguments fails with \<^verbatim>\<open>TypeError\<close> when
  \<^verbatim>\<open>dialect\<close> is missing (or a key collides with \<^verbatim>\<open>cls\<close>); \<^verbatim>\<open>kwargs.pop("started")\<close> raises
  \<^verbatim>\<open>KeyError\<close>; the constructor accepts only its own field names and requires
  \<^verbatim>\<open>implementations\<close>.
\<close>

definition RunMetadata_from_dict :: "env \<Rightarrow> pydict \<Rightarrow> error + RunMetadata" where
  "RunMetadata_from_dict E header =
     (case map_of header ''dialect'' of
        None \<Rightarrow> Inl TypeError
      | Some d \<Rightarrow>
          if map_of header ''cls'' \<noteq> None then Inl TypeError
          else
            let kwargs = filter (\<lambda>kv. fst kv \<noteq> ''dialect'') header in
            (case map_of kwargs ''started'' of
               None \<Rightarrow> Inl KeyError
             | Some st \<Rightarrow>
                 (case (if st = JNull then Inr None else map_sum id Some (fromisoformat E st)) of
                    Inl e \<Rightarrow> Inl e
                  | Inr st' \<Rightarrow>
                      (case URL_parse_value d of
                         Inl e \<Rightarrow> Inl e
                       | Inr u \<Rightarrow>
                           if \<not> list_all (\<lambda>k. k \<in> set [''implementations'', ''bowtie_version'',
                                                        ''metadata'', ''started''])
                                  (map fst kwargs)
                           then Inl TypeError
                           else
                             (case map_of kwargs ''implementations'' of
                                None \<Rightarrow> Inl TypeError
                              | Some impls \<Rightarrow>
                                  Inr \<lparr>dialect = u,
                                       implementations_map = impls,
                                       bowtie_version = map_of kwargs ''bowtie_version'',
                                       metadata_dict =
                                         (case map_of kwargs ''metadata'' of None \<Rightarrow> JObject [] | Some m \<Rightarrow> m),
                                       started = st'\<rparr>)))))"

text \<open>
  \<^verbatim>\<open>dialect_shortname\<close> is \<^verbatim>\<open>_DIALECT_URI_TO_SHORTNAME.get(self.dialect, self.dialect)\<close>: the
  label, a string, when the dialect is in the table, and otherwise the dialect itself, a
  URL object.
\<close>

datatype shortname = Shortname string | Unlabelled URL

definition dialect_shortname :: "RunMetadata \<Rightarrow> shortname" where
  "dialect_shortname self =
     (case map_of DIALECT_URI_TO_SHORTNAME (dialect self) of
        Some label \<Rightarrow> Shortname label
      | None \<Rightarrow> Unlabelled (dialect self))"

text \<open>\<^verbatim>\<open>d.values()\<close> of a dict; on any other decoded value the attribute is missing.\<close>

definition dict_values :: "json \<Rightarrow> error + json list" where
  "dict_values v = (case v of JObject kvs \<Rightarrow> Inr (map snd (AList.clearjunk kvs)) | _ \<Rightarrow> Inl AttributeError)"

definition RunMetadata_implementations :: "RunMetadata \<Rightarrow> error + json list" where
  "RunMetadata_implementations self = dict_values (implementations_map self)"

text \<open>\<^verbatim>\<open>v[key]\<close> for a string key: only a dict can be indexed by a string.\<close>

definition subscript :: "json \<Rightarrow> string \<Rightarrow> error + json" where
  "subscript v key =
     (case v of
        JObject kvs \<Rightarrow> (case map_of kvs key of None \<Rightarrow> Inl KeyError | Some x \<Rightarrow> Inr x)
      | _ \<Rightarrow> Inl TypeError)"

text \<open>A list comprehension whose element expression may raise: the first exception ends it.\<close>

fun traverse :: "('a \<Rightarrow> error + 'b) \<Rightarrow> 'a list \<Rightarrow> error + 'b list" where
  "traverse f [] = Inr []"
| "traverse f (x # xs) =
     (case f x of
        Inl e \<Rightarrow> Inl e
      | Inr y \<Rightarrow> (case traverse f xs of Inl e \<Rightarrow> Inl e | Inr ys \<Rightarrow> Inr (y # ys)))"

section \<open>Report\<close>

record Report =
  cases :: "(Seq, TestCase) HashTrieMap"
  metadata :: RunMetadata
  summary :: Summary
  did_fail_fast :: json

text \<open>
  The five record shapes of the \<^verbatim>\<open>match\<close> statement in \<^verbatim>\<open>Report.from_input\<close>, tried in the
  order of its \<^verbatim>\<open>case\<close> clauses. The class pattern \<^verbatim>\<open>Seq(seq)\<close> is an \<^verbatim>\<open>isinstance\<close> test
  against \<^verbatim>\<open>int\<close>, which a \<^verbatim>\<open>bool\<close> passes as well; the literal pattern \<^verbatim>\<open>True\<close> matches the
  value \<^verbatim>\<open>True\<close> only.
\<close>

datatype shape =
    CaseShape json json
  | ErroredShape
  | SkippedShape pydict
  | FailFastShape json
  | ResultShape

definition is_Seq :: "json \<Rightarrow> bool" where
  "is_Seq v = (case v of JInt n \<Rightarrow> True | JBool b \<Rightarrow> True | _ \<Rightarrow> False)"

text \<open>The map key of a matched \<^verbatim>\<open>seq\<close> (\<^verbatim>\<open>True == 1\<close> and \<^verbatim>\<open>False == 0\<close>), and its \<^verbatim>\<open>str\<close>.\<close>

definition seq_key :: "json \<Rightarrow> Seq" where
  "seq_key v = (case v of JInt n \<Rightarrow> n | JBool b \<Rightarrow> (if b then 1 else 0) | _ \<Rightarrow> 0)"

definition str_seq :: "json \<Rightarrow> string" where
  "str_seq v = (case v of JInt n \<Rightarrow> str_int n | JBool b \<Rightarrow> (if b then ''True'' else ''False'') | _ \<Rightarrow> [])"

definition classify :: "pydict \<Rightarrow> shape" where
  "classify data =
     (case (case (map_of data ''seq'', map_of data ''case'') of
              (Some sv, Some c) \<Rightarrow> if is_Seq sv then Some (CaseShape sv c) else None
            | _ \<Rightarrow> None) of
        Some sh \<Rightarrow> sh
      | None \<Rightarrow>
          if map_of data ''caught'' \<noteq> None then ErroredShape
          else if map_of data ''skipped'' = Some (JBool True)
          then SkippedShape (filter (\<lambda>kv. fst kv \<noteq> ''skipped'') data)
          else (case map_of data ''did_fail_fast'' of
                  Some v \<Rightarrow> FailFastShape v
                | None \<Rightarrow> ResultShape))"

text \<open>
  The \<^verbatim>\<open>for data in iterator\<close> loop of \<^verbatim>\<open>from_input\<close>, on the records after the header. Its
  state is \<^verbatim>\<open>cases\<close>, \<^verbatim>\<open>summary\<close> and \<^verbatim>\<open>did_fail_fast\<close>; \<^verbatim>\<open>break\<close> returns the state without
  looking at the remaining records, an exception abandons it.
\<close>

fun consume ::
  "env \<Rightarrow> URL \<Rightarrow> (Seq, TestCase) HashTrieMap \<Rightarrow> Summary \<Rightarrow> json \<Rightarrow> pydict list
     \<Rightarrow> error + ((Seq, TestCase) HashTrieMap \<times> Summary \<times> json)" where
  "consume E d cs sm dff [] = Inr (cs, sm, dff)"
| "consume E d cs sm dff (data # rest) =
     (case classify data of
        CaseShape sv c \<Rightarrow>
          if hcontains (seq_key sv) cs
          then Inl (InvalidBowtieReport (''Duplicate case: '' @ str_seq sv))
          else (case TestCase_from_dict E d c of
                  Inl e \<Rightarrow> Inl e
                | Inr tc \<Rightarrow> consume E d (hinsert (seq_key sv) tc cs) sm dff rest)
      | ErroredShape \<Rightarrow>
          (case CaseErrored_init E data of
             Inl e \<Rightarrow> Inl e
           | Inr r \<Rightarrow>
               (case with_result sm r of
                  Inl e \<Rightarrow> Inl e
                | Inr sm' \<Rightarrow> consume E d cs sm' dff rest))
      | SkippedShape skip \<Rightarrow>
          (case CaseSkipped_init E skip of
             Inl e \<Rightarrow> Inl e
           | Inr r \<Rightarrow>
               (case with_result sm r of
                  Inl e \<Rightarrow> Inl e
                | Inr sm' \<Rightarrow> consume E d cs sm' dff rest))
      | FailFastShape v \<Rightarrow> Inr (cs, sm, v)
      | ResultShape \<Rightarrow>
          (case CaseResult_from_dict E data of
             Inl e \<Rightarrow> Inl e
           | Inr r \<Rightarrow>
               (case with_result sm r of
                  Inl e \<Rightarrow> Inl e
                | Inr sm' \<Rightarrow> consume E d cs sm' dff rest)))"

definition from_input :: "env \<Rightarrow> pydict list \<Rightarrow> error + Report" where
  "from_input E input =
     (case input of
        [] \<Rightarrow> Inl EmptyReport
      | header # rest \<Rightarrow>
          (case RunMetadata_from_dict E header of
             Inl e \<Rightarrow> Inl e
           | Inr md \<Rightarrow>
               (case consume E (dialect md) [] Summary0 (JBool False) rest of
                  Inl e \<Rightarrow> Inl e
                | Inr (cs, sm, dff) \<Rightarrow>
                    Inr \<lparr>cases = cs, metadata = md, summary = sm, did_fail_fast = dff\<rparr>)))"

subsection \<open>Queries\<close>

text \<open>The items of a map: one per key.\<close>

definition hitems :: "('k, 'v) HashTrieMap \<Rightarrow> ('k \<times> 'v) list" where
  "hitems m = AList.clearjunk m"

definition Report_dialect :: "Report \<Rightarrow> URL" where
  "Report_dialect self = dialect (metadata self)"

definition is_empty :: "Report \<Rightarrow> bool" where
  "is_empty self = (hitems (cases self) = [])"

definition total_tests :: "Report \<Rightarrow> int" where
  "total_tests self = sum_list (map (\<lambda>kv. int (length (tests (snd kv)))) (hitems (cases self)))"

definition Report_implementations :: "Report \<Rightarrow> error + json list" where
  "Report_implementations self =
     (case RunMetadata_implementations (metadata self) of
        Inl e \<Rightarrow> Inl e
      | Inr impls \<Rightarrow> traverse (\<lambda>each. subscript each ''image'') impls)"

text \<open>
  A decoded value used as a key of a map whose keys are strings: a list or a dict is
  unhashable (\<^verbatim>\<open>TypeError\<close>), a string is looked up, any other value equals no string.
\<close>

definition hashable_key :: "json \<Rightarrow> error + string option" where
  "hashable_key v =
     (case v of
        JStr s \<Rightarrow> Inr (Some s)
      | JList xs \<Rightarrow> Inl TypeError
      | JObject kvs \<Rightarrow> Inl TypeError
      | _ \<Rightarrow> Inr None)"

definition results_attr :: "env \<Rightarrow> AnyCaseResult \<Rightarrow> error + AnyTestResult list" where
  "results_attr E r = (case r of CaseResult i s outs \<Rightarrow> Inr outs | _ \<Rightarrow> results_of_unrun E r)"

text \<open>
  The dict comprehension
  \<^verbatim>\<open>{each: case_results[each].results[i] for each in self.implementations if each in case_results}\<close>,
  over the already evaluated list \<^verbatim>\<open>self.implementations\<close>; \<open>acc\<close> is the dict built so far.
\<close>

fun by_implementation_at ::
  "env \<Rightarrow> (string, AnyCaseResult) HashTrieMap \<Rightarrow> nat \<Rightarrow> (string \<times> AnyTestResult) list \<Rightarrow> json list
     \<Rightarrow> error + (string \<times> AnyTestResult) list" where
  "by_implementation_at E case_results i acc [] = Inr acc"
| "by_implementation_at E case_results i acc (each # rest) =
     (case hashable_key each of
        Inl e \<Rightarrow> Inl e
      | Inr None \<Rightarrow> by_implementation_at E case_results i acc rest
      | Inr (Some k) \<Rightarrow>
          (case hget case_results k of
             None \<Rightarrow> by_implementation_at E case_results i acc rest
           | Some r \<Rightarrow>
               (case results_attr E r of
                  Inl e \<Rightarrow> Inl e
                | Inr outs \<Rightarrow>
                    if i < length outs
                    then by_implementation_at E case_results i (AList.update k (outs ! i) acc) rest
                    else Inl IndexError)))"

text \<open>The body of the inner loop, for the test at position \<open>i\<close>.\<close>

definition test_view ::
  "env \<Rightarrow> Report \<Rightarrow> (string, AnyCaseResult) HashTrieMap \<Rightarrow> nat \<times> Test
     \<Rightarrow> error + (Test \<times> (string \<times> AnyTestResult) list)" where
  "test_view E self case_results it =
     (case Report_implementations self of
        Inl e \<Rightarrow> Inl e
      | Inr impls \<Rightarrow>
          (case by_implementation_at E case_results (fst it) [] impls of
             Inl e \<Rightarrow> Inl e
           | Inr m \<Rightarrow> Inr (snd it, m)))"

text \<open>The body of the outer loop: what is yielded for one registered case.\<close>

definition case_view ::
  "env \<Rightarrow> Report \<Rightarrow> Seq \<times> TestCase
     \<Rightarrow> error + (TestCase \<times> (Test \<times> (string \<times> AnyTestResult) list) list)" where
  "case_view E self sc =
     (case Summary_getitem (summary self) (fst sc) of
        Inl e \<Rightarrow> Inl e
      | Inr case_results \<Rightarrow>
          (case traverse (test_view E self case_results) (enumerate 0 (tests (snd sc))) of
             Inl e \<Rightarrow> Inl e
           | Inr test_results \<Rightarrow> Inr (snd sc, test_results)))"

text \<open>
  A generator: the pairs yielded so far, and the exception that ended the iteration, if
  one did.
\<close>

fun yield_all :: "('a \<Rightarrow> error + 'b) \<Rightarrow> 'a list \<Rightarrow> 'b list \<times> error option" where
  "yield_all f [] = ([], None)"
| "yield_all f (x # xs) =
     (case f x of
        Inl e \<Rightarrow> ([], Some e)
      | Inr y \<Rightarrow> (y # fst (yield_all f xs), snd (yield_all f xs)))"

definition cases_with_results ::
  "env \<Rightarrow> Report
     \<Rightarrow> (TestCase \<times> (Test \<times> (string \<times> AnyTestResult) list) list) list \<times> error option" where
  "cases_with_results E self = yield_all (case_view E self) (sort_key fst (hitems (cases self)))"

section \<open>Badges\<close>

subsection \<open>Python's floats\<close>

text \<open>
  A finite \<^verbatim>\<open>float\<close> is an IEEE 754 binary64 number. It is modelled by a pair \<open>(m, e)\<close> of
  integers that denotes \<open>m \<times> 2\<^sup>e\<close>. \<open>round_to_double a b\<close> is the number nearest to \<open>a / b\<close>
  (for \<open>b > 0\<close>), ties to even, with 53 significant bits and gradual underflow below
  \<open>2\<^sup>-\<^sup>1\<^sup>0\<^sup>2\<^sup>2\<close>; a result of magnitude \<open>2\<^sup>1\<^sup>0\<^sup>2\<^sup>4\<close> or more is outside the finite range.
\<close>

type_synonym float = "int \<times> int"

definition float_val :: "float \<Rightarrow> rat" where
  "float_val f =
     (if 0 \<le> snd f then of_int (fst f) * 2 ^ nat (snd f) else of_int (fst f) / 2 ^ nat (- snd f))"

function bit_length :: "int \<Rightarrow> int" where
  "bit_length n = (if n \<le> 0 then 0 else 1 + bit_length (n div 2))"
  by pat_completeness auto
termination
  by (relation "measure nat") auto

declare bit_length.simps [simp del]

text \<open>\<open>\<lfloor>log\<^sub>2 (a / b)\<rfloor>\<close> for positive \<open>a\<close> and \<open>b\<close>.\<close>

definition ilog2 :: "int \<Rightarrow> int \<Rightarrow> int" where
  "ilog2 a b =
     (let k = bit_length a - bit_length b
      in if (if 0 \<le> k then b * 2 ^ nat k \<le> a else b \<le> a * 2 ^ nat (- k)) then k else k - 1)"

text \<open>The integer nearest to \<open>n / d\<close> for \<open>d > 0\<close>, ties to even.\<close>

definition round_half_even :: "int \<Rightarrow> int \<Rightarrow> int" where
  "round_half_even n d =
     (let q = n div d; r = n mod d
      in if 2 * r < d then q
         else if d < 2 * r then q + 1
         else if even q then q else q + 1)"

definition round_to_double :: "int \<Rightarrow> int \<Rightarrow> float" where
  "round_to_double a b =
     (if a = 0 then (0, 0)
      else
        let e = max (ilog2 \<bar>a\<bar> b) (- 1022) - 52
        in if e \<le> 0 then (round_half_even (a * 2 ^ nat (- e)) b, e)
           else (round_half_even a (b * 2 ^ nat e), e))"

definition float_finite :: "float \<Rightarrow> bool" where
  "float_finite f =
     (if 0 \<le> snd f then \<bar>fst f\<bar> * 2 ^ nat (snd f) < 2 ^ 1024
      else \<bar>fst f\<bar> < 2 ^ 1024 * 2 ^ nat (- snd f))"

text \<open>
  \<^verbatim>\<open>a / b\<close> on two \<^verbatim>\<open>int\<close>s: the correctly rounded quotient, \<^verbatim>\<open>ZeroDivisionError\<close> for a zero
  divisor, \<^verbatim>\<open>OverflowError\<close> when the quotient is too large for a float.
\<close>

definition py_truediv :: "int \<Rightarrow> int \<Rightarrow> error + float" where
  "py_truediv a b =
     (if b = 0 then Inl ZeroDivisionError
      else
        let r = (if 0 < b then round_to_double a b else round_to_double (- a) (- b))
        in if float_finite r then Inr r else Inl OverflowError)"

text \<open>
  \<^verbatim>\<open>x * y\<close> on floats: the exact product, rounded; \<open>None\<close> is an infinity. The \<^verbatim>\<open>int\<close> operand
  \<^verbatim>\<open>100\<close> of the badge code converts to the float \<open>(100, 0)\<close> exactly.
\<close>

definition float_mul :: "float \<Rightarrow> float \<Rightarrow> float option" where
  "float_mul x y =
     (let m = fst x * fst y; e = snd x + snd y;
          r = (if 0 \<le> e then round_to_double (m * 2 ^ nat e) 1 else round_to_double m (2 ^ nat (- e)))
      in if float_finite r then Some r else None)"

text \<open>\<^verbatim>\<open>int(x)\<close> of a float truncates towards zero; an infinity is an \<^verbatim>\<open>OverflowError\<close>.\<close>

definition trunc_frac :: "int \<Rightarrow> int \<Rightarrow> int" where
  "trunc_frac n d = (if 0 \<le> n then n div d else - ((- n) div d))"

definition py_int :: "float option \<Rightarrow> error + int" where
  "py_int x =
     (case x of
        None \<Rightarrow> Inl OverflowError
      | Some f \<Rightarrow>
          Inr (if 0 \<le> snd f then fst f * 2 ^ nat (snd f)
               else trunc_frac (fst f) (2 ^ nat (- snd f))))"

subsection \<open>Formatting\<close>

text \<open>
  The format \<^verbatim>\<open>02x\<close>: lower-case hexadecimal, zero-padded to a width of two that counts the
  sign; a wider number is not cut.
\<close>

definition format_02x :: "int \<Rightarrow> string" where
  "format_02x n =
     (if n < 0 then CHR ''-'' # digits 16 (nat (- n))
      else if n < 16 then CHR ''0'' # digits 16 (nat n)
      else digits 16 (nat n))"

definition removeprefix :: "string \<Rightarrow> string \<Rightarrow> string" where
  "removeprefix pre s = (if take (length pre) s = pre then drop (length pre) s else s)"

definition replace_char :: "char \<Rightarrow> char \<Rightarrow> string \<Rightarrow> string" where
  "replace_char a b s = map (\<lambda>c. if c = a then b else c) s"

fun join :: "string \<Rightarrow> string list \<Rightarrow> string" where
  "join sep [] = []"
| "join sep [x] = x"
| "join sep (x # y # ys) = x @ sep @ join sep (y # ys)"

subsection \<open>Badge generation\<close>

text \<open>
  Iterating a decoded value: a list gives its elements, a string its characters, a dict
  its keys; nothing else is iterable.
\<close>

definition py_iter :: "json \<Rightarrow> error + json list" where
  "py_iter v =
     (case v of
        JList xs \<Rightarrow> Inr xs
      | JStr s \<Rightarrow> Inr (map (\<lambda>c. JStr [c]) s)
      | JObject kvs \<Rightarrow> Inr (map (\<lambda>kv. JStr (fst kv)) (AList.clearjunk kvs))
      | _ \<Rightarrow> Inl TypeError)"

text \<open>\<^verbatim>\<open>_DIALECT_URI_TO_SHORTNAME[d]\<close>.\<close>

definition shortname_of :: "URL \<Rightarrow> error + string" where
  "shortname_of d = (case map_of DIALECT_URI_TO_SHORTNAME d of None \<Rightarrow> Inl KeyError | Some l \<Rightarrow> Inr l)"

text \<open>\<^verbatim>\<open>self.summary.by_implementation[image]\<close> for a decoded \<^verbatim>\<open>image\<close>.\<close>

definition counts_of :: "Summary \<Rightarrow> json \<Rightarrow> error + Count" where
  "counts_of s img =
     (case hashable_key img of
        Inl e \<Rightarrow> Inl e
      | Inr None \<Rightarrow> Inl KeyError
      | Inr (Some k) \<Rightarrow> (case hget (by_implementation s) k of None \<Rightarrow> Inl KeyError | Some c \<Rightarrow> Inr c))"

text \<open>
  The arithmetic of one badge: \<^verbatim>\<open>passed\<close>, \<^verbatim>\<open>pct = (passed / total) * 100\<close> in floating point,
  and \<^verbatim>\<open>int(pct)\<close>.
\<close>

definition passed_tests :: "int \<Rightarrow> Count \<Rightarrow> int" where
  "passed_tests tot counts = tot - failed_tests counts - errored_tests counts - skipped_tests counts"

definition percentage :: "int \<Rightarrow> Count \<Rightarrow> error + float option" where
  "percentage tot counts =
     (case py_truediv (passed_tests tot counts) tot of
        Inl e \<Rightarrow> Inl e
      | Inr q \<Rightarrow> Inr (float_mul q (100, 0)))"

definition int_pct :: "int \<Rightarrow> Count \<Rightarrow> error + int" where
  "int_pct tot counts = (case percentage tot counts of Inl e \<Rightarrow> Inl e | Inr pct \<Rightarrow> py_int pct)"

text \<open>\<^verbatim>\<open>r, g, b = 100 - int(pct), int(pct), 0\<close>.\<close>

definition badge_rgb :: "int \<Rightarrow> Count \<Rightarrow> error + (int \<times> int \<times> int)" where
  "badge_rgb tot counts =
     (case int_pct tot counts of Inl e \<Rightarrow> Inl e | Inr p \<Rightarrow> Inr (100 - p, p, 0))"

definition color_of :: "int \<times> int \<times> int \<Rightarrow> string" where
  "color_of rgb = format_02x (fst rgb) @ format_02x (fst (snd rgb)) @ format_02x (snd (snd rgb))"

text \<open>
  The file system receives directories and texts. A path is \<^verbatim>\<open>target_dir\<close> followed by
  parts; the part \<^verbatim>\<open>f"{lang}-{name}"\<close> is kept as the two values it is formatted from, and
  a written text as the dict that \<^verbatim>\<open>json.dumps\<close> serialises.
\<close>

datatype path_part = LangName json json | Part string

datatype fs_effect =
    Mkdir string "path_part list"
  | WriteText string "path_part list" pydict

text \<open>
  The body of the loop over \<^verbatim>\<open>self.metadata.implementations\<close>: the effects for one
  implementation (none when \<^verbatim>\<open>continue\<close> skips it), or the exception raised before any of
  them.
\<close>

definition badges_for :: "Report \<Rightarrow> string \<Rightarrow> string \<Rightarrow> int \<Rightarrow> json \<Rightarrow> error + fs_effect list" where
  "badges_for self target_dir label tot impl =
     (case subscript impl ''dialects'' of
        Inl e \<Rightarrow> Inl e
      | Inr ds \<Rightarrow>
     (case py_iter ds of
        Inl e \<Rightarrow> Inl e
      | Inr each \<Rightarrow>
     (case traverse URL_parse_value each of
        Inl e \<Rightarrow> Inl e
      | Inr dialect_versions \<Rightarrow>
          if Report_dialect self \<notin> set dialect_versions then Inr []
          else
     (case traverse shortname_of (rev dialect_versions) of
        Inl e \<Rightarrow> Inl e
      | Inr names \<Rightarrow>
     (case subscript impl ''name'' of
        Inl e \<Rightarrow> Inl e
      | Inr name \<Rightarrow>
     (case subscript impl ''language'' of
        Inl e \<Rightarrow> Inl e
      | Inr lang \<Rightarrow>
     (case subscript impl ''image'' of
        Inl e \<Rightarrow> Inl e
      | Inr img \<Rightarrow>
     (case counts_of (summary self) img of
        Inl e \<Rightarrow> Inl e
      | Inr counts \<Rightarrow>
     (case badge_rgb tot counts of
        Inl e \<Rightarrow> Inl e
      | Inr rgb \<Rightarrow>
          let supported_drafts = join '', '' (map (removeprefix ''Draft '') names);
              badge_per_draft =
                [(''schemaVersion'', JInt 1),
                 (''label'', JStr label),
                 (''message'', JStr (str_int (fst (snd rgb)) @ ''% Passing'')),
                 (''color'', JStr (color_of rgb))];
              comp_dir = [LangName lang name, Part ''compliance''];
              badge_supp_draft =
                [(''schemaVersion'', JInt 1),
                 (''label'', JStr ''JSON Schema Versions''),
                 (''message'', JStr supported_drafts),
                 (''color'', JStr ''lightgreen'')]
          in Inr [Mkdir target_dir comp_dir,
                  WriteText target_dir (comp_dir @ [Part (replace_char CHR '' '' CHR ''_'' label @ ''.json'')])
                    badge_per_draft,
                  WriteText target_dir [LangName lang name, Part ''supported_versions.json'']
                    badge_supp_draft])))))))))"

text \<open>The loop: the effects performed, and the exception that ended it, if one did.\<close>

fun badge_loop :: "(json \<Rightarrow> error + fs_effect list) \<Rightarrow> json list \<Rightarrow> fs_effect list \<times> error option" where
  "badge_loop f [] = ([], None)"
| "badge_loop f (impl # rest) =
     (case f impl of
        Inl e \<Rightarrow> ([], Some e)
      | Inr effs \<Rightarrow> (effs @ fst (badge_loop f rest), snd (badge_loop f rest)))"

definition generate_badges :: "Report \<Rightarrow> string \<Rightarrow> fs_effect list \<times> error option" where
  "generate_badges self target_dir =
     (case shortname_of (Report_dialect self) of
        Inl e \<Rightarrow> ([], Some e)
      | Inr label \<Rightarrow>
          let tot = total_tests self in
          (case RunMetadata_implementations (metadata self) of
             Inl e \<Rightarrow> ([], Some e)
           | Inr impls \<Rightarrow> badge_loop (badges_for self target_dir label tot) impls))"

section \<open>Auxiliary notions for the statements\<close>

text \<open>
  Folding result-bearing records into a summary, as the loop of \<^verbatim>\<open>from_input\<close> does with
  \<^verbatim>\<open>summary = summary.with_result(...)\<close>: left to right, the first exception ends the fold.
\<close>

fun with_results :: "Summary \<Rightarrow> AnyCaseResult list \<Rightarrow> error + Summary" where
  "with_results s [] = Inr s"
| "with_results s (r # rs) =
     (case with_result s r of Inl e \<Rightarrow> Inl e | Inr s' \<Rightarrow> with_results s' rs)"

text \<open>
  The outcome that implementation \<open>k\<close> recorded for the test at position \<open>i\<close> of the case
  registered at \<open>sq\<close>, if the summary holds a result of \<open>k\<close> for that case and the result
  has an outcome at that position.
\<close>

definition test_outcome :: "env \<Rightarrow> Report \<Rightarrow> Seq \<Rightarrow> nat \<Rightarrow> string \<Rightarrow> AnyTestResult option" where
  "test_outcome E self sq i k =
     (case result_at (summary self) sq k of
        None \<Rightarrow> None
      | Some x \<Rightarrow>
          (case results_attr E x of
             Inl e \<Rightarrow> None
           | Inr outs \<Rightarrow> if i < length outs then Some (outs ! i) else None))"

text \<open>A record that the loop of \<^verbatim>\<open>from_input\<close> takes as the terminal fail-fast record.\<close>

definition is_fail_fast :: "pydict \<Rightarrow> bool" where
  "is_fail_fast data = (case classify data of FailFastShape v \<Rightarrow> True | _ \<Rightarrow> False)"

text \<open>
  The colour bytes as the specification words them: red is \<open>100 - pct\<close>, green is \<open>pct\<close>,
  blue is \<open>0\<close>, each truncated to an integer, for the same floating-point \<open>pct\<close>.
\<close>

definition claimed_rgb :: "int \<Rightarrow> Count \<Rightarrow> error + (int \<times> int \<times> int)" where
  "claimed_rgb tot counts =
     (case percentage tot counts of
        Inl e \<Rightarrow> Inl e
      | Inr None \<Rightarrow> Inl OverflowError
      | Inr (Some f) \<Rightarrow>
          Inr (if 0 \<le> snd f
               then (100 - fst f * 2 ^ nat (snd f), fst f * 2 ^ nat (snd f), 0)
               else (trunc_frac (100 * 2 ^ nat (- snd f) - fst f) (2 ^ nat (- snd f)),
                     trunc_frac (fst f) (2 ^ nat (- snd f)),
                     0)))"

section \<open>An instance of the parameters and example records\<close>

text \<open>
  Modelled from the spec: decoders for the records of the persisted report format, to
  instantiate the parameters in the examples. A case payload has a description, a schema
  and tests (each an instance and its expected verdict); an errored record has
  \<^verbatim>\<open>implementation\<close>, \<^verbatim>\<open>seq\<close>, \<^verbatim>\<open>context\<close> and \<^verbatim>\<open>caught\<close>; a skipped record has \<^verbatim>\<open>implementation\<close>,
  \<^verbatim>\<open>seq\<close> and a message; a result record has \<^verbatim>\<open>implementation\<close>, \<^verbatim>\<open>seq\<close> and one outcome per test,
  here one of the strings \<^verbatim>\<open>passed\<close>, \<^verbatim>\<open>failed\<close>, \<^verbatim>\<open>errored\<close>, \<^verbatim>\<open>skipped\<close>.
\<close>

definition decode_test :: "json \<Rightarrow> error + Test" where
  "decode_test v =
     (case v of
        JObject kvs \<Rightarrow>
          (case (map_of kvs ''instance'', map_of kvs ''valid'') of
             (Some i, Some (JBool b)) \<Rightarrow> Inr \<lparr>instance_of = i, valid = b\<rparr>
           | _ \<Rightarrow> Inl TypeError)
      | _ \<Rightarrow> Inl TypeError)"

definition decode_case :: "URL \<Rightarrow> json \<Rightarrow> error + TestCase" where
  "decode_case d v =
     (case v of
        JObject kvs \<Rightarrow>
          (case (map_of kvs ''description'', map_of kvs ''schema'', map_of kvs ''tests'') of
             (Some de, Some sc, Some (JList ts)) \<Rightarrow>
               (case traverse decode_test ts of
                  Inl e \<Rightarrow> Inl e
                | Inr tsts \<Rightarrow> Inr \<lparr>description = de, schema = sc, tests = tsts\<rparr>)
           | _ \<Rightarrow> Inl TypeError)
      | _ \<Rightarrow> Inl TypeError)"

definition decode_outcome :: "json \<Rightarrow> error + AnyTestResult" where
  "decode_outcome v =
     (if v = JStr ''passed'' then Inr TestPassed
      else if v = JStr ''failed'' then Inr TestFailed
      else if v = JStr ''errored'' then Inr TestErrored
      else if v = JStr ''skipped'' then Inr TestSkipped
      else Inl ValueError)"

definition decode_errored :: "pydict \<Rightarrow> error + AnyCaseResult" where
  "decode_errored data =
     (case (map_of data ''implementation'', map_of data ''seq'', map_of data ''context'',
            map_of data ''caught'') of
        (Some (JStr i), Some (JInt n), Some ctx, Some (JBool b)) \<Rightarrow> Inr (CaseErrored i n ctx b)
      | _ \<Rightarrow> Inl TypeError)"

definition decode_skipped :: "pydict \<Rightarrow> error + AnyCaseResult" where
  "decode_skipped skip =
     (case (map_of skip ''implementation'', map_of skip ''seq'') of
        (Some (JStr i), Some (JInt n)) \<Rightarrow>
          Inr (CaseSkipped i n (case map_of skip ''message'' of None \<Rightarrow> JNull | Some m \<Rightarrow> m))
      | _ \<Rightarrow> Inl TypeError)"

definition decode_result :: "pydict \<Rightarrow> error + AnyCaseResult" where
  "decode_result data =
     (case (map_of data ''implementation'', map_of data ''seq'', map_of data ''results'') of
        (Some (JStr i), Some (JInt n), Some (JList rs)) \<Rightarrow>
          (case traverse decode_outcome rs of
             Inl e \<Rightarrow> Inl e
           | Inr outs \<Rightarrow> Inr (CaseResult i n outs))
      | _ \<Rightarrow> Inl TypeError)"

definition example_env :: env where
  "example_env =
     \<lparr>fromisoformat = (\<lambda>v. case v of JStr s \<Rightarrow> Inr (Datetime s) | _ \<Rightarrow> Inl TypeError),
      TestCase_from_dict = decode_case,
      CaseErrored_init = decode_errored,
      CaseSkipped_init = decode_skipped,
      CaseResult_from_dict = decode_result,
      results_of_unrun = (\<lambda>r. Inl AttributeError)\<rparr>"

definition draft7 :: string where
  "draft7 = ''http://json-schema.org/draft-07/schema#''"

text \<open>An implementation descriptor and a header that declares it.\<close>

definition example_descriptor :: "string \<Rightarrow> json" where
  "example_descriptor name =
     JObject [(''name'', JStr name), (''language'', JStr ''python''), (''image'', JStr name),
              (''dialects'', JList [JStr draft7])]"

definition example_header :: "string \<Rightarrow> pydict" where
  "example_header d =
     [(''dialect'', JStr d),
      (''implementations'', JObject [(''foo'', example_descriptor ''foo'')]),
      (''bowtie_version'', JStr ''0.1''),
      (''metadata'', JObject []),
      (''started'', JNull)]"

definition example_case_payload :: json where
  "example_case_payload =
     JObject [(''description'', JStr ''a case''), (''schema'', JObject []),
              (''tests'', JList [JObject [(''instance'', JInt 12), (''valid'', JBool True)]])]"

definition example_case :: "int \<Rightarrow> pydict" where
  "example_case n = [(''seq'', JInt n), (''case'', example_case_payload)]"

definition example_result :: "string \<Rightarrow> int \<Rightarrow> pydict" where
  "example_result impl n =
     [(''implementation'', JStr impl), (''seq'', JInt n), (''results'', JList [JStr ''failed''])]"

definition example_fail_fast :: pydict where
  "example_fail_fast = [(''did_fail_fast'', JBool True)]"

definition example_test_case :: TestCase where
  "example_test_case =
     \<lparr>description = JStr ''a case'', schema = JObject [],
      tests = [\<lparr>instance_of = JInt 12, valid = True\<rparr>]\<rparr>"

definition example_metadata :: "string \<Rightarrow> RunMetadata" where
  "example_metadata d =
     \<lparr>dialect = URL_parse d,
      implementations_map = JObject [(''foo'', example_descriptor ''foo'')],
      bowtie_version = Some (JStr ''0.1''),
      metadata_dict = JObject [],
      started = None\<rparr>"

section \<open>Evaluation of the examples\<close>

lemma env_sel:
  "TestCase_from_dict example_env = decode_case"
  "CaseResult_from_dict example_env = decode_result"
  "CaseErrored_init example_env = decode_errored"
  "CaseSkipped_init example_env = decode_skipped"
  "results_of_unrun example_env = (\<lambda>r. Inl AttributeError)"
  by (simp_all add: example_env_def)

lemma example_header_ok:
  "RunMetadata_from_dict example_env (example_header d) = Inr (example_metadata d)"
  by (simp add: RunMetadata_from_dict_def example_env_def example_header_def example_metadata_def
      URL_parse_value_def)

lemma classify_example_case: "classify (example_case n) = CaseShape (JInt n) example_case_payload"
  by (simp add: classify_def example_case_def is_Seq_def)

lemma classify_example_result: "classify (example_result i n) = ResultShape"
  by (simp add: classify_def example_result_def)

lemma classify_example_fail_fast: "classify example_fail_fast = FailFastShape (JBool True)"
  by (simp add: classify_def example_fail_fast_def)

lemma decode_example_case: "decode_case d example_case_payload = Inr example_test_case"
  by (simp add: decode_case_def example_case_payload_def decode_test_def example_test_case_def)

lemma decode_example_result: "decode_result (example_result i n) = Inr (CaseResult i n [TestFailed])"
  by (simp add: decode_result_def example_result_def decode_outcome_def)

lemmas example_simps = env_sel example_header_ok classify_example_case classify_example_result
  classify_example_fail_fast decode_example_case decode_example_result

lemmas map_defs = hcontains_def hinsert_def hget_default_def hget_def

section \<open>Properties\<close>

subsection \<open>Maps\<close>

lemma hget_hinsert: "hget (hinsert k v m) k' = (if k' = k then Some v else hget m k')"
  by (simp add: hget_def hinsert_def update_conv')

lemma hget_Nil: "hget [] k = None"
  by (simp add: hget_def)

lemma hget_default_eq: "hget_default m k d = (case hget m k of None \<Rightarrow> d | Some v \<Rightarrow> v)"
  by (simp add: hget_default_def hget_def)

lemma hcontains_eq: "hcontains k m \<longleftrightarrow> hget m k \<noteq> None"
  by (simp add: hcontains_def hget_def)

subsection \<open>with_result\<close>

lemma hcontains_result_at:
  "hcontains i (hget_default (results s) sq []) \<longleftrightarrow> result_at s sq i \<noteq> None"
  by (simp add: hcontains_eq hget_default_eq result_at_def hget_def split: option.splits)

lemma with_result_duplicate:
  assumes "result_at s (seq r) (implementation r) \<noteq> None"
  shows "with_result s r = Inl (InvalidBowtieReport (''Duplicate result for case ID '' @ str_int (seq r) @ ''!''))"
  using assms by (simp add: with_result_def Let_def hcontains_result_at)

lemma with_result_fresh:
  assumes "result_at s (seq r) (implementation r) = None"
  shows "with_result s r =
    Inr (s\<lparr>by_implementation :=
              hinsert (implementation r)
                (be_counted r (hget_default (by_implementation s) (implementation r) Count0))
                (by_implementation s),
            results := hinsert (seq r) (hinsert (implementation r) r (hget_default (results s) (seq r) []))
                (results s)\<rparr>)"
  using assms by (simp add: with_result_def Let_def hcontains_result_at)

lemma result_at_after:
  assumes "with_result s r = Inr s'"
  shows "result_at s' sq i = (if sq = seq r \<and> i = implementation r then Some r else result_at s sq i)"
proof -
  have fresh: "result_at s (seq r) (implementation r) = None"
    using assms by (auto simp: with_result_def Let_def hcontains_result_at split: if_splits)
  show ?thesis
    using assms unfolding with_result_fresh [OF fresh]
    by (cases "sq = seq r") (auto simp: result_at_def hget_hinsert hget_default_eq hget_Nil split: option.splits)
qed

lemma by_implementation_after:
  assumes "with_result s r = Inr s'"
  shows "hget (by_implementation s') i =
    (if i = implementation r
     then Some (be_counted r (hget_default (by_implementation s) (implementation r) Count0))
     else hget (by_implementation s) i)"
proof -
  have fresh: "result_at s (seq r) (implementation r) = None"
    using assms by (auto simp: with_result_def Let_def hcontains_result_at split: if_splits)
  show ?thesis
    using assms unfolding with_result_fresh [OF fresh]
    by (auto simp: hget_hinsert)
qed

text \<open>
  Claim C1. \<^verbatim>\<open>Summary.with_result\<close> either rejects or inserts both entries at once. When a
  result for the same (Seq, implementation) pair is present it raises
  \<^verbatim>\<open>_InvalidBowtieReport("Duplicate result for case ID ...")\<close> and returns no new summary (the
  summary it was called on is an immutable value). Otherwise the summary it returns holds
  the result at that pair, holds for the implementation the count updated from its former
  count (zero when it had none), and agrees with the old summary on every other pair and
  every other implementation.
\<close>

theorem with_result_inserts_both_or_rejects:
  "(result_at s (seq r) (implementation r) \<noteq> None \<longrightarrow>
      with_result s r =
        Inl (InvalidBowtieReport (''Duplicate result for case ID '' @ str_int (seq r) @ ''!'')))
   \<and> (result_at s (seq r) (implementation r) = None \<longrightarrow>
      (\<exists>s'. with_result s r = Inr s'
         \<and> result_at s' (seq r) (implementation r) = Some r
         \<and> hget (by_implementation s') (implementation r) =
             Some (be_counted r (hget_default (by_implementation s) (implementation r) Count0))
         \<and> (\<forall>sq i. (sq, i) \<noteq> (seq r, implementation r) \<longrightarrow> result_at s' sq i = result_at s sq i)
         \<and> (\<forall>i. i \<noteq> implementation r \<longrightarrow> hget (by_implementation s') i = hget (by_implementation s) i)))"
proof (intro conjI impI)
  assume "result_at s (seq r) (implementation r) \<noteq> None"
  then show "with_result s r =
      Inl (InvalidBowtieReport (''Duplicate result for case ID '' @ str_int (seq r) @ ''!''))"
    by (rule with_result_duplicate)
next
  assume fresh: "result_at s (seq r) (implementation r) = None"
  then obtain s' where s': "with_result s r = Inr s'"
    by (simp add: with_result_fresh)
  show "\<exists>s'. with_result s r = Inr s'
         \<and> result_at s' (seq r) (implementation r) = Some r
         \<and> hget (by_implementation s') (implementation r) =
             Some (be_counted r (hget_default (by_implementation s) (implementation r) Count0))
         \<and> (\<forall>sq i. (sq, i) \<noteq> (seq r, implementation r) \<longrightarrow> result_at s' sq i = result_at s sq i)
         \<and> (\<forall>i. i \<noteq> implementation r \<longrightarrow> hget (by_implementation s') i = hget (by_implementation s) i)"
    using s' by (auto simp: result_at_after [OF s'] by_implementation_after [OF s'])
qed

theorem with_result_inserts_both_or_rejects_witness:
  "with_result Summary0 (CaseErrored ''foo'' 3 JNull True) =
     Inr \<lparr>results = [(3, [(''foo'', CaseErrored ''foo'' 3 JNull True)])],
          by_implementation = [(''foo'', \<lparr>failed_tests = 0, errored_tests = 1, skipped_tests = 0\<rparr>)]\<rparr>
   \<and> result_at \<lparr>results = [(3, [(''foo'', CaseErrored ''foo'' 3 JNull True)])],
          by_implementation = [(''foo'', \<lparr>failed_tests = 0, errored_tests = 1, skipped_tests = 0\<rparr>)]\<rparr>
        3 ''foo'' \<noteq> None
   \<and> with_result \<lparr>results = [(3, [(''foo'', CaseErrored ''foo'' 3 JNull True)])],
          by_implementation = [(''foo'', \<lparr>failed_tests = 0, errored_tests = 1, skipped_tests = 0\<rparr>)]\<rparr>
        (CaseSkipped ''foo'' 3 JNull) =
     Inl (InvalidBowtieReport ''Duplicate result for case ID 3!'')"
  using with_result_inserts_both_or_rejects [of Summary0 "CaseErrored ''foo'' 3 JNull True"]
    with_result_inserts_both_or_rejects
      [of "\<lparr>results = [(3, [(''foo'', CaseErrored ''foo'' 3 JNull True)])],
            by_implementation = [(''foo'', \<lparr>failed_tests = 0, errored_tests = 1, skipped_tests = 0\<rparr>)]\<rparr>"
          "CaseSkipped ''foo'' 3 JNull"]
  by (simp add: result_at_def hget_def Summary0_def with_result_def Let_def hcontains_def hinsert_def hget_default_def Count0_def str_int_def digits.simps digit_char_def)

text \<open>
  Claim C9. \<^verbatim>\<open>Report.from_input\<close> on an empty stream, which has no header record, raises
  \<^verbatim>\<open>EmptyReport\<close>.
\<close>

theorem from_input_empty_stream: "from_input E [] = Inl EmptyReport"
  by (simp add: from_input_def)

subsection \<open>The loop of from_input\<close>

lemma consume_append:
  assumes "\<forall>d \<in> set pre. \<not> is_fail_fast d"
  shows "consume E u cs sm dff (pre @ rest) =
    (case consume E u cs sm dff pre of
       Inl e \<Rightarrow> Inl e
     | Inr st \<Rightarrow> consume E u (fst st) (fst (snd st)) dff rest)"
  using assms
proof (induction pre arbitrary: cs sm)
  case Nil
  show ?case by simp
next
  case (Cons data pre)
  from Cons.prems have nff: "\<not> is_fail_fast data" and rest: "\<forall>d \<in> set pre. \<not> is_fail_fast d"
    by simp_all
  show ?case
  proof (cases "classify data")
    case (FailFastShape v)
    with nff show ?thesis by (simp add: is_fail_fast_def)
  qed (simp_all add: Cons.IH [OF rest] split: sum.splits)
qed

lemma consume_keeps_flag:
  assumes "\<forall>d \<in> set pre. \<not> is_fail_fast d" and "consume E u cs sm dff pre = Inr st"
  shows "snd (snd st) = dff"
  using assms
proof (induction pre arbitrary: cs sm)
  case Nil
  then show ?case by auto
next
  case (Cons data pre)
  from Cons.prems have nff: "\<not> is_fail_fast data" and rest: "\<forall>d \<in> set pre. \<not> is_fail_fast d"
    by simp_all
  show ?case
  proof (cases "classify data")
    case (FailFastShape v)
    with nff show ?thesis by (simp add: is_fail_fast_def)
  qed (use Cons.prems(2) Cons.IH [OF rest] in \<open>auto split: sum.splits if_splits\<close>)
qed

lemma consume_fail_fast:
  assumes "classify t = FailFastShape v"
  shows "consume E u cs sm dff (t # post) = Inr (cs, sm, v)"
  using assms by simp

lemma from_input_truncated:
  assumes "\<forall>d \<in> set pre. \<not> is_fail_fast d" and "classify t = FailFastShape v"
  shows "from_input E (h # pre @ t # post) =
    (case from_input E (h # pre) of Inl e \<Rightarrow> Inl e | Inr rep \<Rightarrow> Inr (rep\<lparr>did_fail_fast := v\<rparr>))"
proof (cases "RunMetadata_from_dict E h")
  case (Inl e)
  then show ?thesis by (simp add: from_input_def)
next
  case (Inr md)
  show ?thesis
  proof (cases "consume E (dialect md) [] Summary0 (JBool False) pre")
    case (Inl e)
    with Inr show ?thesis
      by (simp add: from_input_def consume_append [OF assms(1)])
  next
    case st: (Inr st)
    with Inr show ?thesis
      by (cases st) (simp add: from_input_def consume_append [OF assms(1)] assms(2))
  qed
qed

lemma from_input_exhausted:
  assumes "\<forall>d \<in> set rest. \<not> is_fail_fast d" and "from_input E (h # rest) = Inr rep"
  shows "did_fail_fast rep = JBool False"
proof -
  from assms(2) obtain md st where
    st: "consume E (dialect md) [] Summary0 (JBool False) rest = Inr st"
    and rep: "rep = \<lparr>cases = fst st, metadata = md, summary = fst (snd st), did_fail_fast = snd (snd st)\<rparr>"
    by (auto simp: from_input_def split: sum.splits)
  from consume_keeps_flag [OF assms(1) st] rep show ?thesis by simp
qed

lemma from_input_fail_fast_example:
  assumes "RunMetadata_from_dict E h = Inr md"
    and "classify c1 = CaseShape sv p" and "TestCase_from_dict E (dialect md) p = Inr tc"
    and "classify r1 = ResultShape" and "CaseResult_from_dict E r1 = Inr res"
    and "classify t = FailFastShape (JBool True)"
  shows "from_input E [h, c1, r1, t, c2, r2] =
    (case with_result Summary0 res of
       Inl e \<Rightarrow> Inl e
     | Inr s1 \<Rightarrow> Inr \<lparr>cases = [(seq_key sv, tc)], metadata = md, summary = s1, did_fail_fast = JBool True\<rparr>)"
  using assms by (simp add: from_input_def hcontains_def hinsert_def split: sum.splits)

text \<open>
  Claim C2. Let the records after the header \<open>h\<close> begin with \<open>pre\<close>, none of which is taken
  as a terminal record, followed by a record \<open>t\<close> taken as the terminal record with flag
  value \<open>v\<close>. Then whatever follows \<open>t\<close> has no effect: \<^verbatim>\<open>Report.from_input\<close> gives the report
  of \<open>h\<close> and \<open>pre\<close> with \<^verbatim>\<open>did_fail_fast\<close> set to \<open>v\<close> (or the exception that \<open>h\<close> and \<open>pre\<close>
  raise). A stream without a terminal record that yields a report yields one whose
  \<^verbatim>\<open>did_fail_fast\<close> is \<^verbatim>\<open>False\<close>. In particular, for a header, a case record and a result record
  that decode, the stream \<^verbatim>\<open>[header, case, result, {did_fail_fast: true}, c2, r2]\<close> yields a
  report that holds the one case and the one result only, with \<^verbatim>\<open>did_fail_fast = True\<close>,
  whatever the records \<open>c2\<close> and \<open>r2\<close> are.
\<close>

theorem from_input_stops_at_fail_fast:
  "((\<forall>d \<in> set pre. \<not> is_fail_fast d) \<and> classify t = FailFastShape v \<longrightarrow>
      from_input E (h # pre @ t # post) =
        (case from_input E (h # pre) of
           Inl e \<Rightarrow> Inl e
         | Inr rep \<Rightarrow> Inr (rep\<lparr>did_fail_fast := v\<rparr>)))
   \<and> ((\<forall>d \<in> set rest. \<not> is_fail_fast d) \<and> from_input E (h # rest) = Inr rep' \<longrightarrow>
        did_fail_fast rep' = JBool False)
   \<and> (RunMetadata_from_dict E h = Inr md \<and> classify c1 = CaseShape sv p
        \<and> TestCase_from_dict E (dialect md) p = Inr tc
        \<and> classify r1 = ResultShape \<and> CaseResult_from_dict E r1 = Inr res
        \<and> classify t1 = FailFastShape (JBool True) \<longrightarrow>
        (\<exists>s1. with_result Summary0 res = Inr s1
           \<and> result_at s1 (seq res) (implementation res) = Some res
           \<and> (\<forall>sq i. (sq, i) \<noteq> (seq res, implementation res) \<longrightarrow> result_at s1 sq i = None)
           \<and> from_input E [h, c1, r1, t1, c2, r2] =
               Inr \<lparr>cases = [(seq_key sv, tc)], metadata = md, summary = s1,
                    did_fail_fast = JBool True\<rparr>))"
proof (intro conjI impI)
  assume "(\<forall>d \<in> set pre. \<not> is_fail_fast d) \<and> classify t = FailFastShape v"
  then show "from_input E (h # pre @ t # post) =
        (case from_input E (h # pre) of
           Inl e \<Rightarrow> Inl e
         | Inr rep \<Rightarrow> Inr (rep\<lparr>did_fail_fast := v\<rparr>))"
    using from_input_truncated by blast
next
  assume "(\<forall>d \<in> set rest. \<not> is_fail_fast d) \<and> from_input E (h # rest) = Inr rep'"
  then show "did_fail_fast rep' = JBool False"
    using from_input_exhausted by blast
next
  assume a: "RunMetadata_from_dict E h = Inr md \<and> classify c1 = CaseShape sv p
        \<and> TestCase_from_dict E (dialect md) p = Inr tc
        \<and> classify r1 = ResultShape \<and> CaseResult_from_dict E r1 = Inr res
        \<and> classify t1 = FailFastShape (JBool True)"
  have fresh: "result_at Summary0 (seq res) (implementation res) = None"
    by (simp add: result_at_def Summary0_def hget_def)
  then obtain s1 where s1: "with_result Summary0 res = Inr s1"
    by (simp add: with_result_fresh)
  have "from_input E [h, c1, r1, t1, c2, r2] =
      Inr \<lparr>cases = [(seq_key sv, tc)], metadata = md, summary = s1, did_fail_fast = JBool True\<rparr>"
    using a s1 by (simp add: from_input_fail_fast_example [where md = md and sv = sv and p = p and tc = tc and res = res])
  moreover have "result_at s1 sq i = (if sq = seq res \<and> i = implementation res then Some res else None)" for sq i
    using result_at_after [OF s1, of sq i] by (simp add: result_at_def Summary0_def hget_def)
  ultimately show "\<exists>s1. with_result Summary0 res = Inr s1
           \<and> result_at s1 (seq res) (implementation res) = Some res
           \<and> (\<forall>sq i. (sq, i) \<noteq> (seq res, implementation res) \<longrightarrow> result_at s1 sq i = None)
           \<and> from_input E [h, c1, r1, t1, c2, r2] =
               Inr \<lparr>cases = [(seq_key sv, tc)], metadata = md, summary = s1,
                    did_fail_fast = JBool True\<rparr>"
    using s1 by auto
qed

theorem from_input_stops_at_fail_fast_witness:
  "\<not> is_fail_fast (example_case 1) \<and> \<not> is_fail_fast (example_result ''foo'' 1)
   \<and> classify example_fail_fast = FailFastShape (JBool True)
   \<and> from_input example_env
        [example_header draft7, example_case 1, example_result ''foo'' 1, example_fail_fast,
         example_case 2, example_result ''foo'' 2] =
      Inr \<lparr>cases = [(1, example_test_case)], metadata = example_metadata draft7,
           summary =
             \<lparr>results = [(1, [(''foo'', CaseResult ''foo'' 1 [TestFailed])])],
              by_implementation =
                [(''foo'', \<lparr>failed_tests = 1, errored_tests = 0, skipped_tests = 0\<rparr>)]\<rparr>,
           did_fail_fast = JBool True\<rparr>
   \<and> from_input example_env [example_header draft7, example_case 1, example_result ''foo'' 1] =
      Inr \<lparr>cases = [(1, example_test_case)], metadata = example_metadata draft7,
           summary =
             \<lparr>results = [(1, [(''foo'', CaseResult ''foo'' 1 [TestFailed])])],
              by_implementation =
                [(''foo'', \<lparr>failed_tests = 1, errored_tests = 0, skipped_tests = 0\<rparr>)]\<rparr>,
           did_fail_fast = JBool False\<rparr>"
  using from_input_stops_at_fail_fast
    [of "[example_case 1, example_result ''foo'' 1]" example_fail_fast "JBool True" example_env
        "example_header draft7" "[example_case 2, example_result ''foo'' 2]"
        "[example_case 1, example_result ''foo'' 1]"
        "\<lparr>cases = [(1, example_test_case)], metadata = example_metadata draft7,
           summary =
             \<lparr>results = [(1, [(''foo'', CaseResult ''foo'' 1 [TestFailed])])],
              by_implementation =
                [(''foo'', \<lparr>failed_tests = 1, errored_tests = 0, skipped_tests = 0\<rparr>)]\<rparr>,
           did_fail_fast = JBool False\<rparr>"
        "example_metadata draft7" "example_case 1" "JInt 1" example_case_payload example_test_case
        "example_result ''foo'' 1" "CaseResult ''foo'' 1 [TestFailed]" example_fail_fast
        "example_case 2" "example_result ''foo'' 2"]
  by (simp add: from_input_def example_simps is_fail_fast_def with_result_def hcontains_def hinsert_def
      hget_default_def Summary0_def seq_key_def Count0_def Let_def)

subsection \<open>Duplicate cases\<close>

lemma hcontains_hinsert: "hcontains k (hinsert k' v m) \<longleftrightarrow> k = k' \<or> hcontains k m"
  by (auto simp: hcontains_def hinsert_def update_conv')

lemma consume_registers:
  assumes "\<forall>d \<in> set xs. \<not> is_fail_fast d" and "consume E u cs sm dff xs = Inr st"
    and "hcontains k cs \<or> (\<exists>d \<in> set xs. \<exists>sv p. classify d = CaseShape sv p \<and> seq_key sv = k)"
  shows "hcontains k (fst st)"
  using assms
proof (induction xs arbitrary: cs sm)
  case Nil
  then show ?case by auto
next
  case (Cons data xs)
  from Cons.prems(1) have nff: "\<not> is_fail_fast data" and rest: "\<forall>d \<in> set xs. \<not> is_fail_fast d"
    by simp_all
  show ?case
  proof (cases "classify data")
    case (CaseShape sv p)
    with Cons.prems(2) obtain tc where
      tc: "TestCase_from_dict E u p = Inr tc"
      and st: "consume E u (hinsert (seq_key sv) tc cs) sm dff xs = Inr st"
      by (auto split: if_splits sum.splits)
    have "hcontains k (hinsert (seq_key sv) tc cs)
        \<or> (\<exists>d \<in> set xs. \<exists>sv p. classify d = CaseShape sv p \<and> seq_key sv = k)"
      using Cons.prems(3) CaseShape by (auto simp: hcontains_hinsert)
    from Cons.IH [OF rest st this] show ?thesis .
  next
    case ErroredShape
    with Cons.prems(2) obtain sm' where st: "consume E u cs sm' dff xs = Inr st"
      by (auto split: sum.splits)
    have "hcontains k cs \<or> (\<exists>d \<in> set xs. \<exists>sv p. classify d = CaseShape sv p \<and> seq_key sv = k)"
      using Cons.prems(3) ErroredShape by auto
    from Cons.IH [OF rest st this] show ?thesis .
  next
    case (SkippedShape skip)
    with Cons.prems(2) obtain sm' where st: "consume E u cs sm' dff xs = Inr st"
      by (auto split: sum.splits)
    have "hcontains k cs \<or> (\<exists>d \<in> set xs. \<exists>sv p. classify d = CaseShape sv p \<and> seq_key sv = k)"
      using Cons.prems(3) SkippedShape by auto
    from Cons.IH [OF rest st this] show ?thesis .
  next
    case (FailFastShape v)
    with nff show ?thesis by (simp add: is_fail_fast_def)
  next
    case ResultShape
    with Cons.prems(2) obtain sm' where st: "consume E u cs sm' dff xs = Inr st"
      by (auto split: sum.splits)
    have "hcontains k cs \<or> (\<exists>d \<in> set xs. \<exists>sv p. classify d = CaseShape sv p \<and> seq_key sv = k)"
      using Cons.prems(3) ResultShape by auto
    from Cons.IH [OF rest st this] show ?thesis .
  qed
qed

lemma from_input_duplicate_registered:
  assumes "\<forall>d \<in> set pre. \<not> is_fail_fast d" and "from_input E (h # pre) = Inr rep"
    and "classify r = CaseShape sv c" and "hcontains (seq_key sv) (cases rep)"
  shows "from_input E (h # pre @ r # post) = Inl (InvalidBowtieReport (''Duplicate case: '' @ str_seq sv))"
proof -
  from assms(2) obtain md st where
    md: "RunMetadata_from_dict E h = Inr md"
    and st: "consume E (dialect md) [] Summary0 (JBool False) pre = Inr st"
    and rep: "rep = \<lparr>cases = fst st, metadata = md, summary = fst (snd st), did_fail_fast = snd (snd st)\<rparr>"
    by (auto simp: from_input_def split: sum.splits)
  from rep assms(4) have "hcontains (seq_key sv) (fst st)" by simp
  then show ?thesis
    by (simp add: from_input_def md consume_append [OF assms(1)] st assms(3))
qed

lemma from_input_registers:
  assumes "\<forall>d \<in> set xs. \<not> is_fail_fast d" and "from_input E (h # xs) = Inr rep"
    and "d \<in> set xs" and "classify d = CaseShape sv p"
  shows "hcontains (seq_key sv) (cases rep)"
proof -
  from assms(2) obtain md st where
    st: "consume E (dialect md) [] Summary0 (JBool False) xs = Inr st"
    and rep: "rep = \<lparr>cases = fst st, metadata = md, summary = fst (snd st), did_fail_fast = snd (snd st)\<rparr>"
    by (auto simp: from_input_def split: sum.splits)
  have "hcontains (seq_key sv) (fst st)"
    by (rule consume_registers [OF assms(1) st]) (use assms(3,4) in blast)
  with rep show ?thesis by simp
qed

lemma classify_null_payload: "classify [(''seq'', JInt n), (''case'', JNull)] = CaseShape (JInt n) JNull"
  by (simp add: classify_def is_Seq_def)

text \<open>
  Claim C8. When the loop of \<^verbatim>\<open>Report.from_input\<close> reaches a case record whose Seq is already
  registered, it raises \<^verbatim>\<open>_InvalidBowtieReport("Duplicate case: ...")\<close>, whatever the payloads
  are (the payload of the second record is not even decoded). First form: the records \<open>pre\<close>
  before the case record \<open>r\<close> hold no terminal record and give a report in which the Seq of
  \<open>r\<close> is registered. Second form: \<open>pre\<close> holds no terminal record, gives a report, and holds
  a case record \<open>r0\<close> with the same Seq as \<open>r\<close>.
\<close>

theorem from_input_duplicate_case:
  "((\<forall>d \<in> set pre. \<not> is_fail_fast d) \<and> from_input E (h # pre) = Inr rep
      \<and> classify r = CaseShape sv c \<and> hcontains (seq_key sv) (cases rep) \<longrightarrow>
      from_input E (h # pre @ r # post) =
        Inl (InvalidBowtieReport (''Duplicate case: '' @ str_seq sv)))
   \<and> ((\<forall>d \<in> set pre. \<not> is_fail_fast d) \<and> from_input E (h # pre) = Inr rep
      \<and> r0 \<in> set pre \<and> classify r0 = CaseShape sv0 c0
      \<and> classify r = CaseShape sv c \<and> seq_key sv = seq_key sv0 \<longrightarrow>
      from_input E (h # pre @ r # post) =
        Inl (InvalidBowtieReport (''Duplicate case: '' @ str_seq sv)))"
proof (intro conjI impI)
  assume "(\<forall>d \<in> set pre. \<not> is_fail_fast d) \<and> from_input E (h # pre) = Inr rep
      \<and> classify r = CaseShape sv c \<and> hcontains (seq_key sv) (cases rep)"
  then show "from_input E (h # pre @ r # post) =
        Inl (InvalidBowtieReport (''Duplicate case: '' @ str_seq sv))"
    using from_input_duplicate_registered by blast
next
  assume a: "(\<forall>d \<in> set pre. \<not> is_fail_fast d) \<and> from_input E (h # pre) = Inr rep
      \<and> r0 \<in> set pre \<and> classify r0 = CaseShape sv0 c0
      \<and> classify r = CaseShape sv c \<and> seq_key sv = seq_key sv0"
  then have "hcontains (seq_key sv0) (cases rep)"
    using from_input_registers by blast
  with a show "from_input E (h # pre @ r # post) =
        Inl (InvalidBowtieReport (''Duplicate case: '' @ str_seq sv))"
    using from_input_duplicate_registered [of pre E h rep r sv c post] by simp
qed

theorem from_input_duplicate_case_witness:
  "\<not> is_fail_fast (example_case 1) \<and> \<not> is_fail_fast (example_result ''foo'' 1)
   \<and> from_input example_env [example_header draft7, example_case 1, example_result ''foo'' 1] =
      Inr \<lparr>cases = [(1, example_test_case)], metadata = example_metadata draft7,
           summary =
             \<lparr>results = [(1, [(''foo'', CaseResult ''foo'' 1 [TestFailed])])],
              by_implementation =
                [(''foo'', \<lparr>failed_tests = 1, errored_tests = 0, skipped_tests = 0\<rparr>)]\<rparr>,
           did_fail_fast = JBool False\<rparr>
   \<and> classify [(''seq'', JInt 1), (''case'', JNull)] = CaseShape (JInt 1) JNull
   \<and> hcontains (seq_key (JInt 1)) [(1, example_test_case)]
   \<and> from_input example_env
        [example_header draft7, example_case 1, example_result ''foo'' 1,
         [(''seq'', JInt 1), (''case'', JNull)], example_fail_fast] =
      Inl (InvalidBowtieReport ''Duplicate case: 1'')"
  using from_input_duplicate_case
    [of "[example_case 1, example_result ''foo'' 1]" example_env "example_header draft7"
        "\<lparr>cases = [(1, example_test_case)], metadata = example_metadata draft7,
           summary =
             \<lparr>results = [(1, [(''foo'', CaseResult ''foo'' 1 [TestFailed])])],
              by_implementation =
                [(''foo'', \<lparr>failed_tests = 1, errored_tests = 0, skipped_tests = 0\<rparr>)]\<rparr>,
           did_fail_fast = JBool False\<rparr>"
        "[(''seq'', JInt 1), (''case'', JNull)]" "JInt 1" JNull "[example_fail_fast]"
        "example_case 1" "JInt 1" example_case_payload]
  by (simp add: from_input_def example_simps is_fail_fast_def with_result_def hcontains_def hinsert_def
      hget_default_def Summary0_def seq_key_def Count0_def Let_def classify_null_payload str_seq_def
      str_int_def digits.simps digit_char_def)

subsection \<open>Dialect labels\<close>

lemma shortname_of_unknown:
  "d \<notin> fst ` set DIALECT_URI_TO_SHORTNAME \<Longrightarrow> map_of DIALECT_URI_TO_SHORTNAME d = None"
  by (simp add: map_of_eq_None_iff)

text \<open>
  Claim C6. \<^verbatim>\<open>RunMetadata.dialect_shortname\<close> gives the label of each of the six dialect URIs
  of the table, and for a dialect that is not in the table it gives the dialect back as it
  is (the URL object, whose text is the raw URI); it cannot raise.
\<close>

theorem dialect_shortname_label_or_raw:
  "(dialect md = URL_parse ''https://json-schema.org/draft/2020-12/schema'' \<longrightarrow>
      dialect_shortname md = Shortname ''Draft 2020-12'')
   \<and> (dialect md = URL_parse ''https://json-schema.org/draft/2019-09/schema'' \<longrightarrow>
      dialect_shortname md = Shortname ''Draft 2019-09'')
   \<and> (dialect md = URL_parse ''http://json-schema.org/draft-07/schema#'' \<longrightarrow>
      dialect_shortname md = Shortname ''Draft 7'')
   \<and> (dialect md = URL_parse ''http://json-schema.org/draft-06/schema#'' \<longrightarrow>
      dialect_shortname md = Shortname ''Draft 6'')
   \<and> (dialect md = URL_parse ''http://json-schema.org/draft-04/schema#'' \<longrightarrow>
      dialect_shortname md = Shortname ''Draft 4'')
   \<and> (dialect md = URL_parse ''http://json-schema.org/draft-03/schema#'' \<longrightarrow>
      dialect_shortname md = Shortname ''Draft 3'')
   \<and> (dialect md \<notin> fst ` set DIALECT_URI_TO_SHORTNAME \<longrightarrow>
      dialect_shortname md = Unlabelled (dialect md))
   \<and> map fst DIALECT_URI_TO_SHORTNAME =
       map URL_parse
         [''https://json-schema.org/draft/2020-12/schema'',
          ''https://json-schema.org/draft/2019-09/schema'',
          ''http://json-schema.org/draft-07/schema#'',
          ''http://json-schema.org/draft-06/schema#'',
          ''http://json-schema.org/draft-04/schema#'',
          ''http://json-schema.org/draft-03/schema#'']"
proof -
  have unknown: "dialect md \<notin> fst ` set DIALECT_URI_TO_SHORTNAME \<longrightarrow>
      dialect_shortname md = Unlabelled (dialect md)"
    by (simp add: dialect_shortname_def shortname_of_unknown)
  show ?thesis
    by (intro conjI unknown) (simp_all add: dialect_shortname_def DIALECT_URI_TO_SHORTNAME_def URL_parse_def)
qed

theorem dialect_shortname_label_or_raw_witness:
  "dialect_shortname (example_metadata ''http://json-schema.org/draft-07/schema#'') = Shortname ''Draft 7''
   \<and> dialect_shortname (example_metadata ''https://json-schema.org/draft/2020-12/schema'') =
       Shortname ''Draft 2020-12''
   \<and> dialect (example_metadata ''urn:example:dialect'') \<notin> fst ` set DIALECT_URI_TO_SHORTNAME
   \<and> dialect_shortname (example_metadata ''urn:example:dialect'') = Unlabelled (URL ''urn:example:dialect'')"
  using dialect_shortname_label_or_raw [of "example_metadata ''http://json-schema.org/draft-07/schema#''"]
    dialect_shortname_label_or_raw [of "example_metadata ''https://json-schema.org/draft/2020-12/schema''"]
    dialect_shortname_label_or_raw [of "example_metadata ''urn:example:dialect''"]
  by (simp add: example_metadata_def DIALECT_URI_TO_SHORTNAME_def URL_parse_def)

text \<open>
  Claim C10. For a report whose dialect is not one of the six URIs of the table,
  \<^verbatim>\<open>generate_badges\<close> raises \<^verbatim>\<open>KeyError\<close> at the lookup of the label, having written nothing,
  although \<^verbatim>\<open>dialect_shortname\<close> of the same run metadata falls back to the dialect itself.
\<close>

theorem generate_badges_unknown_dialect:
  "Report_dialect self \<notin> fst ` set DIALECT_URI_TO_SHORTNAME \<longrightarrow>
     generate_badges self target_dir = ([], Some KeyError)
     \<and> dialect_shortname (metadata self) = Unlabelled (Report_dialect self)"
  by (simp add: generate_badges_def shortname_of_def dialect_shortname_def Report_dialect_def
      shortname_of_unknown)

theorem generate_badges_unknown_dialect_witness:
  "Report_dialect \<lparr>cases = [(1, example_test_case)], metadata = example_metadata ''urn:example:dialect'',
       summary = Summary0, did_fail_fast = JBool False\<rparr> \<notin> fst ` set DIALECT_URI_TO_SHORTNAME
   \<and> generate_badges \<lparr>cases = [(1, example_test_case)], metadata = example_metadata ''urn:example:dialect'',
       summary = Summary0, did_fail_fast = JBool False\<rparr> ''badges'' = ([], Some KeyError)"
  using generate_badges_unknown_dialect
    [of "\<lparr>cases = [(1, example_test_case)], metadata = example_metadata ''urn:example:dialect'',
       summary = Summary0, did_fail_fast = JBool False\<rparr>" "''badges''"]
  by (simp add: Report_dialect_def example_metadata_def DIALECT_URI_TO_SHORTNAME_def URL_parse_def)

subsection \<open>Counting is additive\<close>

lemma foldl_count_outcome:
  "failed_tests (foldl count_outcome c outs) = failed_tests c + failed_tests (foldl count_outcome Count0 outs)
   \<and> errored_tests (foldl count_outcome c outs) = errored_tests c + errored_tests (foldl count_outcome Count0 outs)
   \<and> skipped_tests (foldl count_outcome c outs) = skipped_tests c + skipped_tests (foldl count_outcome Count0 outs)"
proof (induction outs arbitrary: c rule: rev_induct)
  case Nil
  show ?case by (simp add: Count0_def)
next
  case (snoc x xs)
  show ?case
    using snoc.IH [of c] by (cases x) simp_all
qed

lemma be_counted_additive:
  "failed_tests (be_counted r c) = failed_tests c + failed_tests (be_counted r Count0)"
  "errored_tests (be_counted r c) = errored_tests c + errored_tests (be_counted r Count0)"
  "skipped_tests (be_counted r c) = skipped_tests c + skipped_tests (be_counted r Count0)"
  using foldl_count_outcome [of c] by (cases r; simp add: Count0_def)+

lemma Count_eqI:
  fixes c c' :: Count
  assumes "failed_tests c = failed_tests c'" "errored_tests c = errored_tests c'"
    "skipped_tests c = skipped_tests c'"
  shows "c = c'"
  using assms by (cases c, cases c') simp

lemma with_results_one_implementation:
  assumes "\<forall>r \<in> set rs. implementation r = impl" and "distinct (map seq rs)"
    and "\<forall>r \<in> set rs. result_at s (seq r) impl = None"
  shows "\<exists>s'. with_results s rs = Inr s'
    \<and> (rs = [] \<longrightarrow> s' = s)
    \<and> (rs \<noteq> [] \<longrightarrow> hget (by_implementation s') impl \<noteq> None)
    \<and> failed_tests (hget_default (by_implementation s') impl Count0) =
        failed_tests (hget_default (by_implementation s) impl Count0)
        + sum_list (map (\<lambda>r. failed_tests (be_counted r Count0)) rs)
    \<and> errored_tests (hget_default (by_implementation s') impl Count0) =
        errored_tests (hget_default (by_implementation s) impl Count0)
        + sum_list (map (\<lambda>r. errored_tests (be_counted r Count0)) rs)
    \<and> skipped_tests (hget_default (by_implementation s') impl Count0) =
        skipped_tests (hget_default (by_implementation s) impl Count0)
        + sum_list (map (\<lambda>r. skipped_tests (be_counted r Count0)) rs)"
  using assms
proof (induction rs arbitrary: s)
  case Nil
  show ?case by simp
next
  case (Cons r rs)
  from Cons.prems have impl: "implementation r = impl" and fresh: "result_at s (seq r) impl = None"
    by simp_all
  from fresh impl obtain s1 where s1: "with_result s r = Inr s1"
    by (simp add: with_result_fresh)
  have count1: "hget (by_implementation s1) impl =
      Some (be_counted r (hget_default (by_implementation s) impl Count0))"
    using by_implementation_after [OF s1, of impl] impl by simp
  have "\<forall>r' \<in> set rs. result_at s1 (seq r') impl = None"
  proof
    fix r' assume r': "r' \<in> set rs"
    from Cons.prems(2) have "seq r \<notin> seq ` set rs" by simp
    with r' have "seq r' \<noteq> seq r" by (metis imageI)
    with Cons.prems(3) r' show "result_at s1 (seq r') impl = None"
      by (simp add: result_at_after [OF s1])
  qed
  moreover have "\<forall>r' \<in> set rs. implementation r' = impl" "distinct (map seq rs)"
    using Cons.prems by simp_all
  ultimately obtain s' where s': "with_results s1 rs = Inr s'"
    and nonempty: "rs \<noteq> [] \<longrightarrow> hget (by_implementation s') impl \<noteq> None"
    and empty: "rs = [] \<longrightarrow> s' = s1"
    and f: "failed_tests (hget_default (by_implementation s') impl Count0) =
        failed_tests (hget_default (by_implementation s1) impl Count0)
        + sum_list (map (\<lambda>r. failed_tests (be_counted r Count0)) rs)"
    and e: "errored_tests (hget_default (by_implementation s') impl Count0) =
        errored_tests (hget_default (by_implementation s1) impl Count0)
        + sum_list (map (\<lambda>r. errored_tests (be_counted r Count0)) rs)"
    and k: "skipped_tests (hget_default (by_implementation s') impl Count0) =
        skipped_tests (hget_default (by_implementation s1) impl Count0)
        + sum_list (map (\<lambda>r. skipped_tests (be_counted r Count0)) rs)"
    using Cons.IH [of s1] by blast
  have c1: "hget_default (by_implementation s1) impl Count0 =
      be_counted r (hget_default (by_implementation s) impl Count0)"
    using count1 by (simp add: hget_default_eq)
  have "hget (by_implementation s') impl \<noteq> None"
    using nonempty empty count1 by (cases "rs = []") auto
  then show ?case
    using s1 s' f e k
    by (simp add: c1 be_counted_additive [of r "hget_default (by_implementation s) impl Count0"])
qed

lemma with_results_permuted:
  assumes "\<forall>r \<in> set rs. implementation r = impl" and "distinct (map seq rs)"
    and "\<forall>r \<in> set rs. result_at s (seq r) impl = None" and "mset rs' = mset rs"
  shows "\<exists>s1 s2. with_results s rs = Inr s1 \<and> with_results s rs' = Inr s2
    \<and> hget (by_implementation s1) impl = hget (by_implementation s2) impl"
proof -
  have set_eq: "set rs' = set rs"
    using assms(4) by (rule mset_eq_setD)
  have "mset (map seq rs') = mset (map seq rs)"
    using assms(4) by (metis mset_map)
  then have dist': "distinct (map seq rs')"
    using assms(2) by (metis mset_eq_imp_distinct_iff)
  have sums: "sum_list (map f rs') = sum_list (map f rs)" for f :: "AnyCaseResult \<Rightarrow> int"
    using assms(4) by (metis mset_map sum_mset_sum_list)
  obtain s1 where s1: "with_results s rs = Inr s1"
    and e1: "rs = [] \<longrightarrow> s1 = s" and n1: "rs \<noteq> [] \<longrightarrow> hget (by_implementation s1) impl \<noteq> None"
    and f1: "failed_tests (hget_default (by_implementation s1) impl Count0) =
        failed_tests (hget_default (by_implementation s) impl Count0)
        + sum_list (map (\<lambda>r. failed_tests (be_counted r Count0)) rs)"
    and r1: "errored_tests (hget_default (by_implementation s1) impl Count0) =
        errored_tests (hget_default (by_implementation s) impl Count0)
        + sum_list (map (\<lambda>r. errored_tests (be_counted r Count0)) rs)"
    and k1: "skipped_tests (hget_default (by_implementation s1) impl Count0) =
        skipped_tests (hget_default (by_implementation s) impl Count0)
        + sum_list (map (\<lambda>r. skipped_tests (be_counted r Count0)) rs)"
    using with_results_one_implementation [OF assms(1-3)] by blast
  obtain s2 where s2: "with_results s rs' = Inr s2"
    and e2: "rs' = [] \<longrightarrow> s2 = s" and n2: "rs' \<noteq> [] \<longrightarrow> hget (by_implementation s2) impl \<noteq> None"
    and f2: "failed_tests (hget_default (by_implementation s2) impl Count0) =
        failed_tests (hget_default (by_implementation s) impl Count0)
        + sum_list (map (\<lambda>r. failed_tests (be_counted r Count0)) rs')"
    and r2: "errored_tests (hget_default (by_implementation s2) impl Count0) =
        errored_tests (hget_default (by_implementation s) impl Count0)
        + sum_list (map (\<lambda>r. errored_tests (be_counted r Count0)) rs')"
    and k2: "skipped_tests (hget_default (by_implementation s2) impl Count0) =
        skipped_tests (hget_default (by_implementation s) impl Count0)
        + sum_list (map (\<lambda>r. skipped_tests (be_counted r Count0)) rs')"
    using with_results_one_implementation [of rs' impl s] assms(1,3) set_eq dist' by blast
  have "hget (by_implementation s1) impl = hget (by_implementation s2) impl"
  proof (cases "rs = []")
    case True
    with assms(4) have "rs' = []" by simp
    with True e1 e2 show ?thesis by simp
  next
    case False
    with assms(4) have "rs' \<noteq> []" by auto
    with False n1 n2 obtain c1 c2 where
      c1: "hget (by_implementation s1) impl = Some c1" and c2: "hget (by_implementation s2) impl = Some c2"
      by auto
    have "c1 = c2"
      using f1 r1 k1 f2 r2 k2 by (intro Count_eqI) (simp_all add: hget_default_eq c1 c2 sums)
    with c1 c2 show ?thesis by simp
  qed
  with s1 s2 show ?thesis by blast
qed

text \<open>
  Claim C3. Let \<open>rs\<close> be result-bearing records of one implementation with pairwise distinct
  Seq values, none of them already present in the summary \<open>s\<close> (none is in \<^verbatim>\<open>Summary()\<close>), and
  let \<open>rs'\<close> be any permutation of \<open>rs\<close>. Folding either list into \<open>s\<close> with \<^verbatim>\<open>with_result\<close>
  succeeds, and both summaries hold the same \<^verbatim>\<open>Count\<close> for the implementation.
\<close>

theorem count_independent_of_order:
  "(\<forall>r \<in> set rs. implementation r = impl) \<and> distinct (map seq rs)
     \<and> (\<forall>r \<in> set rs. result_at s (seq r) impl = None) \<and> mset rs' = mset rs \<longrightarrow>
   (\<exists>s1 s2. with_results s rs = Inr s1 \<and> with_results s rs' = Inr s2
      \<and> hget (by_implementation s1) impl = hget (by_implementation s2) impl)"
  using with_results_permuted by blast

theorem count_independent_of_order_witness:
  "map implementation [CaseResult ''foo'' 1 [TestFailed, TestPassed], CaseSkipped ''foo'' 2 JNull,
               CaseErrored ''foo'' 3 JNull True] = [''foo'', ''foo'', ''foo'']
   \<and> distinct (map seq [CaseResult ''foo'' 1 [TestFailed, TestPassed], CaseSkipped ''foo'' 2 JNull,
               CaseErrored ''foo'' 3 JNull True])
   \<and> map (\<lambda>r. result_at Summary0 (seq r) ''foo'')
         [CaseResult ''foo'' 1 [TestFailed, TestPassed], CaseSkipped ''foo'' 2 JNull,
          CaseErrored ''foo'' 3 JNull True] = [None, None, None]
   \<and> mset [CaseErrored ''foo'' 3 JNull True, CaseResult ''foo'' 1 [TestFailed, TestPassed],
            CaseSkipped ''foo'' 2 JNull] =
       mset [CaseResult ''foo'' 1 [TestFailed, TestPassed], CaseSkipped ''foo'' 2 JNull,
             CaseErrored ''foo'' 3 JNull True]
   \<and> (\<exists>s1 s2.
        with_results Summary0 [CaseResult ''foo'' 1 [TestFailed, TestPassed], CaseSkipped ''foo'' 2 JNull,
             CaseErrored ''foo'' 3 JNull True] = Inr s1
        \<and> with_results Summary0 [CaseErrored ''foo'' 3 JNull True,
             CaseResult ''foo'' 1 [TestFailed, TestPassed], CaseSkipped ''foo'' 2 JNull] = Inr s2
        \<and> hget (by_implementation s1) ''foo'' = hget (by_implementation s2) ''foo'')"
  using count_independent_of_order
    [of "[CaseResult ''foo'' 1 [TestFailed, TestPassed], CaseSkipped ''foo'' 2 JNull,
          CaseErrored ''foo'' 3 JNull True]" "''foo''" Summary0
        "[CaseErrored ''foo'' 3 JNull True, CaseResult ''foo'' 1 [TestFailed, TestPassed],
          CaseSkipped ''foo'' 2 JNull]"]
  by (simp add: result_at_def Summary0_def hget_def)

subsection \<open>Badges\<close>

lemma badge_rgb_zero_total: "badge_rgb 0 counts = Inl ZeroDivisionError"
  by (simp add: badge_rgb_def int_pct_def percentage_def py_truediv_def)

lemma badge_loop_first_error:
  assumes "\<forall>x \<in> set pre. f x = Inr []" and "f impl = Inl e"
  shows "badge_loop f (pre @ impl # post) = ([], Some e)"
  using assms by (induction pre) simp_all

lemma badges_for_zero_total:
  assumes "subscript impl ''dialects'' = Inr ds" and "py_iter ds = Inr each"
    and "traverse URL_parse_value each = Inr dialect_versions"
    and "Report_dialect self \<in> set dialect_versions"
    and "traverse shortname_of (rev dialect_versions) = Inr names"
    and "subscript impl ''name'' = Inr name" and "subscript impl ''language'' = Inr lang"
    and "subscript impl ''image'' = Inr (JStr k)"
  shows "badges_for self target_dir label 0 impl =
    Inl (if hget (by_implementation (summary self)) k = None then KeyError else ZeroDivisionError)"
  using assms
  by (auto simp: badges_for_def counts_of_def hashable_key_def badge_rgb_zero_total split: option.splits)

lemmas example_report_defs = total_tests_def hitems_def Report_dialect_def example_metadata_def
  shortname_of_def DIALECT_URI_TO_SHORTNAME_def URL_parse_def draft7_def RunMetadata_implementations_def
  dict_values_def example_descriptor_def subscript_def py_iter_def URL_parse_value_def counts_of_def
  hashable_key_def hget_def

text \<open>
  Claim C5, as stated, fails: the report of a run in which \<^verbatim>\<open>foo\<close>, which declares the report's
  dialect, answered a case that the stream never registered has \<^verbatim>\<open>total_tests == 0\<close>, and
  \<^verbatim>\<open>generate_badges\<close> raises \<^verbatim>\<open>ZeroDivisionError\<close> on it: the division is not guarded, the pair
  is not skipped, and the exception is not a dedicated one.
\<close>

theorem generate_badges_zero_total_counterexample:
  "from_input example_env [example_header draft7, example_result ''foo'' 1] =
     Inr \<lparr>cases = [], metadata = example_metadata draft7,
          summary =
            \<lparr>results = [(1, [(''foo'', CaseResult ''foo'' 1 [TestFailed])])],
             by_implementation =
               [(''foo'', \<lparr>failed_tests = 1, errored_tests = 0, skipped_tests = 0\<rparr>)]\<rparr>,
          did_fail_fast = JBool False\<rparr>
   \<and> total_tests \<lparr>cases = [], metadata = example_metadata draft7,
          summary =
            \<lparr>results = [(1, [(''foo'', CaseResult ''foo'' 1 [TestFailed])])],
             by_implementation =
               [(''foo'', \<lparr>failed_tests = 1, errored_tests = 0, skipped_tests = 0\<rparr>)]\<rparr>,
          did_fail_fast = JBool False\<rparr> = 0
   \<and> generate_badges \<lparr>cases = [], metadata = example_metadata draft7,
          summary =
            \<lparr>results = [(1, [(''foo'', CaseResult ''foo'' 1 [TestFailed])])],
             by_implementation =
               [(''foo'', \<lparr>failed_tests = 1, errored_tests = 0, skipped_tests = 0\<rparr>)]\<rparr>,
          did_fail_fast = JBool False\<rparr> ''badges'' = ([], Some ZeroDivisionError)"
proof (intro conjI)
  show "from_input example_env [example_header draft7, example_result ''foo'' 1] =
     Inr \<lparr>cases = [], metadata = example_metadata draft7,
          summary =
            \<lparr>results = [(1, [(''foo'', CaseResult ''foo'' 1 [TestFailed])])],
             by_implementation =
               [(''foo'', \<lparr>failed_tests = 1, errored_tests = 0, skipped_tests = 0\<rparr>)]\<rparr>,
          did_fail_fast = JBool False\<rparr>"
    by (simp add: from_input_def example_simps with_result_def hcontains_def hinsert_def
        hget_default_def Summary0_def Count0_def Let_def)
  show "total_tests \<lparr>cases = [], metadata = example_metadata draft7,
          summary =
            \<lparr>results = [(1, [(''foo'', CaseResult ''foo'' 1 [TestFailed])])],
             by_implementation =
               [(''foo'', \<lparr>failed_tests = 1, errored_tests = 0, skipped_tests = 0\<rparr>)]\<rparr>,
          did_fail_fast = JBool False\<rparr> = 0"
    by (simp add: total_tests_def hitems_def)
  show "generate_badges \<lparr>cases = [], metadata = example_metadata draft7,
          summary =
            \<lparr>results = [(1, [(''foo'', CaseResult ''foo'' 1 [TestFailed])])],
             by_implementation =
               [(''foo'', \<lparr>failed_tests = 1, errored_tests = 0, skipped_tests = 0\<rparr>)]\<rparr>,
          did_fail_fast = JBool False\<rparr> ''badges'' = ([], Some ZeroDivisionError)"
    by (simp add: generate_badges_def badges_for_def example_report_defs badge_rgb_zero_total)
qed

text \<open>
  Claim C5, amended. Let a report have a dialect of the table and \<^verbatim>\<open>total_tests == 0\<close>, and let
  \<open>impl\<close> be the first implementation of the run metadata that is not skipped: its declared
  dialects hold the report's dialect (and are all in the table), and it has a name, a
  language and an image \<open>k\<close>. Then \<^verbatim>\<open>generate_badges\<close> writes nothing and raises: the unguarded
  division raises \<^verbatim>\<open>ZeroDivisionError\<close> when the summary has a \<^verbatim>\<open>Count\<close> for \<open>k\<close>, and the lookup
  of the \<^verbatim>\<open>Count\<close> raises \<^verbatim>\<open>KeyError\<close> when it has none.
\<close>

theorem generate_badges_zero_total:
  "shortname_of (Report_dialect self) = Inr label \<and> total_tests self = 0
     \<and> RunMetadata_implementations (metadata self) = Inr (pre @ impl # post)
     \<and> (\<forall>x \<in> set pre. badges_for self target_dir label 0 x = Inr [])
     \<and> subscript impl ''dialects'' = Inr ds \<and> py_iter ds = Inr each
     \<and> traverse URL_parse_value each = Inr dialect_versions
     \<and> Report_dialect self \<in> set dialect_versions
     \<and> traverse shortname_of (rev dialect_versions) = Inr names
     \<and> subscript impl ''name'' = Inr name \<and> subscript impl ''language'' = Inr lang
     \<and> subscript impl ''image'' = Inr (JStr k) \<longrightarrow>
   generate_badges self target_dir =
     ([], Some (if hget (by_implementation (summary self)) k = None then KeyError else ZeroDivisionError))"
proof
  assume a: "shortname_of (Report_dialect self) = Inr label \<and> total_tests self = 0
     \<and> RunMetadata_implementations (metadata self) = Inr (pre @ impl # post)
     \<and> (\<forall>x \<in> set pre. badges_for self target_dir label 0 x = Inr [])
     \<and> subscript impl ''dialects'' = Inr ds \<and> py_iter ds = Inr each
     \<and> traverse URL_parse_value each = Inr dialect_versions
     \<and> Report_dialect self \<in> set dialect_versions
     \<and> traverse shortname_of (rev dialect_versions) = Inr names
     \<and> subscript impl ''name'' = Inr name \<and> subscript impl ''language'' = Inr lang
     \<and> subscript impl ''image'' = Inr (JStr k)"
  then have "badges_for self target_dir label 0 impl =
      Inl (if hget (by_implementation (summary self)) k = None then KeyError else ZeroDivisionError)"
    using badges_for_zero_total by blast
  with a have "badge_loop (badges_for self target_dir label 0) (pre @ impl # post) =
      ([], Some (if hget (by_implementation (summary self)) k = None then KeyError else ZeroDivisionError))"
    using badge_loop_first_error by blast
  with a show "generate_badges self target_dir =
     ([], Some (if hget (by_implementation (summary self)) k = None then KeyError else ZeroDivisionError))"
    by (simp add: generate_badges_def)
qed

theorem generate_badges_zero_total_witness:
  "shortname_of (Report_dialect \<lparr>cases = [], metadata = example_metadata draft7, summary = Summary0,
      did_fail_fast = JBool False\<rparr>) = Inr ''Draft 7''
   \<and> total_tests \<lparr>cases = [], metadata = example_metadata draft7, summary = Summary0,
      did_fail_fast = JBool False\<rparr> = 0
   \<and> RunMetadata_implementations (example_metadata draft7) = Inr ([] @ example_descriptor ''foo'' # [])
   \<and> subscript (example_descriptor ''foo'') ''dialects'' = Inr (JList [JStr draft7])
   \<and> traverse URL_parse_value [JStr draft7] = Inr [URL draft7]
   \<and> traverse shortname_of (rev [URL draft7]) = Inr [''Draft 7'']
   \<and> subscript (example_descriptor ''foo'') ''image'' = Inr (JStr ''foo'')
   \<and> generate_badges \<lparr>cases = [], metadata = example_metadata draft7, summary = Summary0,
      did_fail_fast = JBool False\<rparr> ''badges'' = ([], Some KeyError)
   \<and> generate_badges \<lparr>cases = [], metadata = example_metadata draft7,
        summary = \<lparr>results = [], by_implementation = [(''foo'', Count0)]\<rparr>,
        did_fail_fast = JBool False\<rparr> ''badges'' = ([], Some ZeroDivisionError)"
  using generate_badges_zero_total
    [of "\<lparr>cases = [], metadata = example_metadata draft7, summary = Summary0,
          did_fail_fast = JBool False\<rparr>" "''Draft 7''" "[]" "example_descriptor ''foo''" "[]" "''badges''"
        "JList [JStr draft7]" "[JStr draft7]" "[URL draft7]" "[''Draft 7'']" "JStr ''foo''"
        "JStr ''python''" "''foo''"]
    generate_badges_zero_total
    [of "\<lparr>cases = [], metadata = example_metadata draft7,
          summary = \<lparr>results = [], by_implementation = [(''foo'', Count0)]\<rparr>,
          did_fail_fast = JBool False\<rparr>" "''Draft 7''" "[]" "example_descriptor ''foo''" "[]" "''badges''"
        "JList [JStr draft7]" "[JStr draft7]" "[URL draft7]" "[''Draft 7'']" "JStr ''foo''"
        "JStr ''python''" "''foo''"]
  by (simp add: example_report_defs Summary0_def)

subsection \<open>Bounds on the rounded percentage\<close>

lemma bit_length_bounds:
  "0 < n \<Longrightarrow> 0 < bit_length n \<and> 2 ^ nat (bit_length n - 1) \<le> n \<and> n < 2 ^ nat (bit_length n)"
proof (induction n rule: bit_length.induct)
  case (1 n)
  show ?case
  proof (cases "n div 2 = 0")
    case True
    with "1.prems" have "n = 1" by presburger
    then show ?thesis by (simp add: bit_length.simps)
  next
    case False
    with "1.prems" have pos: "0 < n div 2" by presburger
    with "1.IH" "1.prems" have ih: "0 < bit_length (n div 2)"
      "2 ^ nat (bit_length (n div 2) - 1) \<le> n div 2" "n div 2 < 2 ^ nat (bit_length (n div 2))"
      by simp_all
    define k where "k = nat (bit_length (n div 2) - 1)"
    have bl: "bit_length n = int k + 2"
      using "1.prems" ih(1) by (subst bit_length.simps) (simp add: k_def)
    have k1: "nat (bit_length (n div 2)) = Suc k"
      using ih(1) by (simp add: k_def)
    from ih(2) have lo: "2 ^ k \<le> n div 2" by (simp add: k_def)
    from ih(3) have hi: "n div 2 < 2 ^ Suc k" by (simp add: k1)
    have "2 * (2::int) ^ k \<le> n" using lo by presburger
    moreover have "n < 2 * (2 * (2::int) ^ k)" using hi by simp
    ultimately show ?thesis
      using bl by (simp add: nat_add_distrib)
  qed
qed

lemma round_half_even_bounds:
  assumes "0 < d" and "0 \<le> x" and "x \<le> M * d"
  shows "0 \<le> round_half_even x d \<and> round_half_even x d \<le> M"
proof -
  have q0: "0 \<le> x div d"
    using assms(1,2) by (simp add: pos_imp_zdiv_nonneg_iff)
  have qM: "x div d \<le> M"
  proof -
    have "x div d \<le> (M * d) div d"
      using assms(1,3) by (intro zdiv_mono1)
    with assms(1) show ?thesis by simp
  qed
  show ?thesis
  proof (cases "x = M * d")
    case True
    with assms(1) have "x div d = M" "x mod d = 0" by simp_all
    with assms(1) q0 show ?thesis by (simp add: round_half_even_def Let_def)
  next
    case False
    with assms(3) have "x < M * d" by simp
    have "d * (x div d) \<le> x"
      using mult_div_mod_eq [of d x] pos_mod_sign [OF assms(1), of x] by linarith
    moreover have "d * M \<le> d * (x div d)" if "M \<le> x div d"
      using that assms(1) by (simp add: mult_left_mono)
    ultimately have "x div d < M"
      using \<open>x < M * d\<close> by (cases "M \<le> x div d") (simp_all add: mult.commute)
    with q0 show ?thesis by (auto simp: round_half_even_def Let_def)
  qed
qed

lemma ilog2_upper:
  assumes "0 < a" and "0 < b" and "a < b * 2 ^ j"
  shows "ilog2 a b < int j"
proof -
  define k where "k = bit_length a - bit_length b"
  from bit_length_bounds [OF assms(1)] have a: "0 < bit_length a" "2 ^ nat (bit_length a - 1) \<le> a"
    by simp_all
  from bit_length_bounds [OF assms(2)] have b: "0 < bit_length b" "b < 2 ^ nat (bit_length b)"
    by simp_all
  have k_le: "k \<le> int j"
  proof (rule ccontr)
    assume "\<not> k \<le> int j"
    then have "bit_length b + int j \<le> bit_length a - 1" by (simp add: k_def)
    then have "nat (bit_length b) + j \<le> nat (bit_length a - 1)" using b(1) by linarith
    then have "(2::int) ^ (nat (bit_length b) + j) \<le> 2 ^ nat (bit_length a - 1)"
      by (simp add: power_increasing)
    with a(2) have "(2::int) ^ nat (bit_length b) * 2 ^ j \<le> a" by (simp add: power_add)
    moreover have "b * 2 ^ j < (2::int) ^ nat (bit_length b) * 2 ^ j"
      using b(2) by simp
    ultimately show False using assms(3) by linarith
  qed
  show ?thesis
  proof (cases "0 \<le> k \<and> b * 2 ^ nat k \<le> a")
    case True
    then have "b * 2 ^ nat k < b * 2 ^ j" using assms(3) by linarith
    with assms(2) have "(2::int) ^ nat k < 2 ^ j" by simp
    then have "nat k < j" by simp
    with True show ?thesis by (simp add: ilog2_def Let_def k_def [symmetric])
  next
    case False
    then show ?thesis
      using k_le by (auto simp: ilog2_def Let_def k_def [symmetric])
  qed
qed

lemma round_to_double_bounds:
  assumes "0 \<le> a" and "0 < b" and "a \<le> c * b" and "0 < c" and "c < 2 ^ j" and "j \<le> 52"
  shows "snd (round_to_double a b) \<le> 0 \<and> 0 \<le> fst (round_to_double a b)
    \<and> fst (round_to_double a b) \<le> c * 2 ^ nat (- snd (round_to_double a b))"
proof (cases "a = 0")
  case True
  with assms(4) show ?thesis by (simp add: round_to_double_def)
next
  case False
  with assms(1) have pos: "0 < a" by simp
  have "c * b < 2 ^ j * b" using assms(2,5) by simp
  with assms(3) have "a < b * 2 ^ j" by (simp add: mult.commute)
  from ilog2_upper [OF pos assms(2) this] assms(6) have "ilog2 a b < 52" by simp
  define e where "e = max (ilog2 a b) (- 1022) - 52"
  have e: "e \<le> 0" using \<open>ilog2 a b < 52\<close> by (simp add: e_def)
  have rd: "round_to_double a b = (round_half_even (a * 2 ^ nat (- e)) b, e)"
    using pos e by (simp add: round_to_double_def Let_def e_def)
  have "a * 2 ^ nat (- e) \<le> (c * 2 ^ nat (- e)) * b"
    using assms(3) by (simp add: mult.assoc mult.left_commute mult_right_mono)
  moreover have "0 \<le> a * 2 ^ nat (- e)" using assms(1) by simp
  ultimately have "0 \<le> round_half_even (a * 2 ^ nat (- e)) b
      \<and> round_half_even (a * 2 ^ nat (- e)) b \<le> c * 2 ^ nat (- e)"
    using round_half_even_bounds [OF assms(2)] by blast
  with e show ?thesis by (simp add: rd)
qed

lemma float_finite_bounded:
  assumes "e \<le> 0" and "0 \<le> n" and "n \<le> c * 2 ^ nat (- e)" and "c < 2 ^ 1024"
  shows "float_finite (n, e)"
proof (cases "e = 0")
  case True
  with assms show ?thesis by (simp add: float_finite_def)
next
  case False
  have "c * 2 ^ nat (- e) < 2 ^ 1024 * (2::int) ^ nat (- e)"
    using assms(4) by simp
  with assms(3) have "n < 2 ^ 1024 * (2::int) ^ nat (- e)"
    by (rule le_less_trans)
  with assms(1,2) False show ?thesis by (simp add: float_finite_def)
qed

lemma py_int_bounded:
  assumes "e \<le> 0" and "0 \<le> n" and "n \<le> c * 2 ^ nat (- e)"
  shows "\<exists>g. py_int (Some (n, e)) = Inr g \<and> 0 \<le> g \<and> g \<le> c"
proof (cases "e = 0")
  case True
  with assms show ?thesis by (simp add: py_int_def)
next
  case False
  have "n div 2 ^ nat (- e) \<le> (c * 2 ^ nat (- e)) div 2 ^ nat (- e)"
    using assms(3) by (intro zdiv_mono1) simp_all
  then have "n div 2 ^ nat (- e) \<le> c" by simp
  moreover have "0 \<le> n div 2 ^ nat (- e)"
    using assms(2) by (simp add: pos_imp_zdiv_nonneg_iff)
  ultimately show ?thesis
    using False assms(1,2) by (simp add: py_int_def trunc_frac_def)
qed

lemma int_pct_bounds:
  assumes "0 < tot" and "0 \<le> passed_tests tot counts" and "passed_tests tot counts \<le> tot"
  shows "\<exists>g. int_pct tot counts = Inr g \<and> 0 \<le> g \<and> g \<le> 100"
proof -
  define p where "p = passed_tests tot counts"
  define q where "q = round_to_double p tot"
  have "p \<le> 1 * tot" using assms(3) by (simp add: p_def)
  from round_to_double_bounds [OF _ assms(1) this, of 1] assms(2)
  have qb: "snd q \<le> 0" "0 \<le> fst q" "fst q \<le> 1 * 2 ^ nat (- snd q)"
    by (simp_all add: q_def p_def)
  have qf: "float_finite q"
    using float_finite_bounded [OF qb, of ] by simp
  have div: "py_truediv p tot = Inr q"
    using assms(1) qf by (simp add: py_truediv_def q_def Let_def)
  define r where "r = (if 0 \<le> snd q then round_to_double (fst q * 100 * 2 ^ nat (snd q)) 1
      else round_to_double (fst q * 100) (2 ^ nat (- snd q)))"
  have rb: "snd r \<le> 0 \<and> 0 \<le> fst r \<and> fst r \<le> 100 * 2 ^ nat (- snd r)"
  proof (cases "0 \<le> snd q")
    case True
    with qb(1) have z: "snd q = 0" by simp
    with qb(3) have "fst q * 100 * 2 ^ nat (snd q) \<le> 100 * 1" by simp
    from round_to_double_bounds [OF _ _ this, of 7] qb(2) z True show ?thesis
      by (simp add: r_def)
  next
    case False
    from qb(3) have "fst q * 100 \<le> 100 * 2 ^ nat (- snd q)" by simp
    from round_to_double_bounds [OF _ _ this, of 7] qb(2) False show ?thesis
      by (simp add: r_def)
  qed
  then have rb': "snd r \<le> 0" "0 \<le> fst r" "fst r \<le> 100 * 2 ^ nat (- snd r)"
    by simp_all
  have rf: "float_finite r"
    using float_finite_bounded [OF rb'] by simp
  have mul: "float_mul q (100, 0) = Some r"
    using rf by (simp add: float_mul_def Let_def r_def)
  from py_int_bounded [OF rb'] obtain g where "py_int (Some r) = Inr g" "0 \<le> g" "g \<le> 100"
    by auto
  then show ?thesis
    using div mul by (simp add: int_pct_def percentage_def p_def [symmetric])
qed

lemma digits_single: "n < b \<Longrightarrow> digits b n = [digit_char n]"
  by (simp add: digits.simps)

lemma length_format_02x:
  assumes "0 \<le> n" and "n < 256"
  shows "length (format_02x n) = 2"
proof (cases "n < 16")
  case True
  with assms(1) show ?thesis by (simp add: format_02x_def digits_single)
next
  case False
  with assms have "nat n div 16 < 16" "\<not> nat n < 16" by linarith+
  then have "digits 16 (nat n) = [digit_char (nat n div 16), digit_char (nat n mod 16)]"
    by (subst digits.simps) (simp add: digits_single)
  with False assms(1) show ?thesis by (simp add: format_02x_def)
qed

lemmas float_eval = percentage_def py_truediv_def float_mul_def passed_tests_def round_to_double_def
  ilog2_def bit_length.simps round_half_even_def float_finite_def Let_def int_pct_def badge_rgb_def
  py_int_def trunc_frac_def

lemmas format_eval = color_of_def format_02x_def digits.simps digit_char_def

text \<open>
  Claim C7, as stated, fails. With three tests of which one failed, \<^verbatim>\<open>pct\<close> is 66.67: the code
  computes the red byte as \<^verbatim>\<open>100 - int(pct)\<close>, which is 34, and the colour \<^verbatim>\<open>224200\<close>, whereas
  \<open>100 - pct\<close> truncated to an integer is 33 and gives \<^verbatim>\<open>214200\<close>.
\<close>

theorem badge_colour_counterexample:
  "badge_rgb 3 \<lparr>failed_tests = 1, errored_tests = 0, skipped_tests = 0\<rparr> = Inr (34, 66, 0)
   \<and> color_of (34, 66, 0) = ''224200''
   \<and> claimed_rgb 3 \<lparr>failed_tests = 1, errored_tests = 0, skipped_tests = 0\<rparr> = Inr (33, 66, 0)
   \<and> color_of (33, 66, 0) = ''214200''"
proof (intro conjI)
  show "badge_rgb 3 \<lparr>failed_tests = 1, errored_tests = 0, skipped_tests = 0\<rparr> = Inr (34, 66, 0)"
    by (simp add: float_eval)
  show "claimed_rgb 3 \<lparr>failed_tests = 1, errored_tests = 0, skipped_tests = 0\<rparr> = Inr (33, 66, 0)"
    by (simp add: claimed_rgb_def float_eval)
  show "color_of (34, 66, 0) = ''224200''"
    by (simp add: format_eval)
  show "color_of (33, 66, 0) = ''214200''"
    by (simp add: format_eval)
qed

text \<open>
  Claim C7, amended. Badge generation computes \<^verbatim>\<open>passed = total - failed - errored - skipped\<close>
  and \<^verbatim>\<open>pct = (passed / total) * 100\<close> in floating point; the green byte is \<^verbatim>\<open>int(pct)\<close>, that
  is \<^verbatim>\<open>pct\<close> truncated to an integer, the red byte is 100 minus the green byte, the blue byte
  is 0. When \<^verbatim>\<open>total\<close> is positive and \<^verbatim>\<open>passed\<close> lies between 0 and \<^verbatim>\<open>total\<close>, the computation
  succeeds, the green byte lies between 0 and 100, and the colour is three two-digit
  hexadecimal numbers. In particular \<^verbatim>\<open>total_tests=10, failed=1, errored=0, skipped=1\<close> gives
  \<^verbatim>\<open>passed=8\<close>, \<^verbatim>\<open>pct=80\<close>, the bytes (20, 80, 0) and the colour \<^verbatim>\<open>145000\<close>.
\<close>

theorem badge_colour_arithmetic:
  "(badge_rgb tot counts = Inr rgb \<longrightarrow>
      (\<exists>g. int_pct tot counts = Inr g \<and> rgb = (100 - g, g, 0)))
   \<and> (0 < tot \<and> 0 \<le> passed_tests tot counts \<and> passed_tests tot counts \<le> tot \<longrightarrow>
      (\<exists>g. int_pct tot counts = Inr g \<and> 0 \<le> g \<and> g \<le> 100
         \<and> badge_rgb tot counts = Inr (100 - g, g, 0)
         \<and> length (color_of (100 - g, g, 0)) = 6))
   \<and> passed_tests 10 \<lparr>failed_tests = 1, errored_tests = 0, skipped_tests = 1\<rparr> = 8
   \<and> percentage 10 \<lparr>failed_tests = 1, errored_tests = 0, skipped_tests = 1\<rparr> =
       Inr (Some (5629499534213120, - 46))
   \<and> float_val (5629499534213120, - 46) = 80
   \<and> badge_rgb 10 \<lparr>failed_tests = 1, errored_tests = 0, skipped_tests = 1\<rparr> = Inr (20, 80, 0)
   \<and> color_of (20, 80, 0) = ''145000''"
proof (intro conjI impI)
  assume "badge_rgb tot counts = Inr rgb"
  then show "\<exists>g. int_pct tot counts = Inr g \<and> rgb = (100 - g, g, 0)"
    by (auto simp: badge_rgb_def split: sum.splits)
next
  assume "0 < tot \<and> 0 \<le> passed_tests tot counts \<and> passed_tests tot counts \<le> tot"
  then obtain g where g: "int_pct tot counts = Inr g" "0 \<le> g" "g \<le> 100"
    using int_pct_bounds by blast
  then have "length (format_02x (100 - g)) = 2" "length (format_02x g) = 2"
    by (simp_all add: length_format_02x)
  moreover have "length (format_02x 0) = 2"
    by (simp add: length_format_02x)
  ultimately have "length (color_of (100 - g, g, 0)) = 6"
    by (simp add: color_of_def)
  with g show "\<exists>g. int_pct tot counts = Inr g \<and> 0 \<le> g \<and> g \<le> 100
         \<and> badge_rgb tot counts = Inr (100 - g, g, 0)
         \<and> length (color_of (100 - g, g, 0)) = 6"
    by (simp add: badge_rgb_def)
next
  show "passed_tests 10 \<lparr>failed_tests = 1, errored_tests = 0, skipped_tests = 1\<rparr> = 8"
    by (simp add: passed_tests_def)
  show "percentage 10 \<lparr>failed_tests = 1, errored_tests = 0, skipped_tests = 1\<rparr> =
       Inr (Some (5629499534213120, - 46))"
    by (simp add: float_eval)
  show "float_val (5629499534213120, - 46) = 80"
    by (simp add: float_val_def)
  show "badge_rgb 10 \<lparr>failed_tests = 1, errored_tests = 0, skipped_tests = 1\<rparr> = Inr (20, 80, 0)"
    by (simp add: float_eval)
  show "color_of (20, 80, 0) = ''145000''"
    by (simp add: format_eval)
qed

theorem badge_colour_arithmetic_witness:
  "badge_rgb 3 \<lparr>failed_tests = 1, errored_tests = 0, skipped_tests = 0\<rparr> = Inr (34, 66, 0)
   \<and> int_pct 3 \<lparr>failed_tests = 1, errored_tests = 0, skipped_tests = 0\<rparr> = Inr 66
   \<and> (0::int) < 3 \<and> 0 \<le> passed_tests 3 \<lparr>failed_tests = 1, errored_tests = 0, skipped_tests = 0\<rparr>
   \<and> passed_tests 3 \<lparr>failed_tests = 1, errored_tests = 0, skipped_tests = 0\<rparr> \<le> 3
   \<and> length (color_of (100 - 66, 66, 0)) = 6"
  using badge_colour_arithmetic
    [of 3 "\<lparr>failed_tests = 1, errored_tests = 0, skipped_tests = 0\<rparr>" "(34, 66, 0)"]
  by (simp add: float_eval)

subsection \<open>The joined view\<close>

lemma traverse_all2:
  assumes "\<forall>x \<in> set xs. \<exists>y. f x = Inr y \<and> P x y"
  shows "\<exists>ys. traverse f xs = Inr ys \<and> list_all2 P xs ys"
  using assms
proof (induction xs)
  case Nil
  show ?case by simp
next
  case (Cons x xs)
  from Cons.prems obtain y where y: "f x = Inr y" "P x y" by auto
  from Cons obtain ys where "traverse f xs = Inr ys" "list_all2 P xs ys" by auto
  with y show ?case by simp
qed

lemma yield_all_all2:
  assumes "\<forall>x \<in> set xs. \<exists>y. f x = Inr y \<and> P x y"
  shows "\<exists>ys. yield_all f xs = (ys, None) \<and> list_all2 P xs ys"
  using assms
proof (induction xs)
  case Nil
  show ?case by simp
next
  case (Cons x xs)
  from Cons.prems obtain y where y: "f x = Inr y" "P x y" by auto
  from Cons obtain ys where "yield_all f xs = (ys, None)" "list_all2 P xs ys" by auto
  with y show ?case by simp
qed

lemma by_implementation_at_names:
  assumes "\<forall>k \<in> set names. \<forall>x. hget cr k = Some x \<longrightarrow> (\<exists>outs. results_attr E x = Inr outs \<and> i < length outs)"
  shows "\<exists>m. by_implementation_at E cr i acc (map JStr names) = Inr m
    \<and> (distinct (map fst acc) \<longrightarrow> distinct (map fst m))
    \<and> (\<forall>k. map_of m k =
          (if k \<in> set names \<and> hget cr k \<noteq> None
           then (case hget cr k of None \<Rightarrow> None
                 | Some x \<Rightarrow> (case results_attr E x of Inl e \<Rightarrow> None | Inr outs \<Rightarrow> Some (outs ! i)))
           else map_of acc k))"
  using assms
proof (induction names arbitrary: acc)
  case Nil
  show ?case by simp
next
  case (Cons n names)
  from Cons.prems have rest:
    "\<forall>k \<in> set names. \<forall>x. hget cr k = Some x \<longrightarrow> (\<exists>outs. results_attr E x = Inr outs \<and> i < length outs)"
    by simp
  show ?case
  proof (cases "hget cr n")
    case None
    from Cons.IH [OF rest, of acc] obtain m where
      m: "by_implementation_at E cr i acc (map JStr names) = Inr m"
        "distinct (map fst acc) \<longrightarrow> distinct (map fst m)"
        "\<forall>k. map_of m k =
          (if k \<in> set names \<and> hget cr k \<noteq> None
           then (case hget cr k of None \<Rightarrow> None
                 | Some x \<Rightarrow> (case results_attr E x of Inl e \<Rightarrow> None | Inr outs \<Rightarrow> Some (outs ! i)))
           else map_of acc k)"
      by blast
    with None show ?thesis
      by (auto simp: hashable_key_def)
  next
    case (Some x)
    with Cons.prems obtain outs where outs: "results_attr E x = Inr outs" "i < length outs"
      by auto
    from Cons.IH [OF rest, of "AList.update n (outs ! i) acc"] obtain m where
      m: "by_implementation_at E cr i (AList.update n (outs ! i) acc) (map JStr names) = Inr m"
        "distinct (map fst (AList.update n (outs ! i) acc)) \<longrightarrow> distinct (map fst m)"
        "\<forall>k. map_of m k =
          (if k \<in> set names \<and> hget cr k \<noteq> None
           then (case hget cr k of None \<Rightarrow> None
                 | Some x \<Rightarrow> (case results_attr E x of Inl e \<Rightarrow> None | Inr outs \<Rightarrow> Some (outs ! i)))
           else map_of (AList.update n (outs ! i) acc) k)"
      by blast
    have "by_implementation_at E cr i acc (map JStr (n # names)) = Inr m"
      using Some outs m(1) by (simp add: hashable_key_def)
    moreover have "distinct (map fst acc) \<longrightarrow> distinct (map fst m)"
      using m(2) by (simp add: distinct_update)
    moreover have "map_of m k =
          (if k \<in> set (n # names) \<and> hget cr k \<noteq> None
           then (case hget cr k of None \<Rightarrow> None
                 | Some x \<Rightarrow> (case results_attr E x of Inl e \<Rightarrow> None | Inr outs \<Rightarrow> Some (outs ! i)))
           else map_of acc k)" for k
      using m(3) Some outs by (auto simp: update_conv')
    ultimately show ?thesis by blast
  qed
qed

lemma test_view_joined:
  assumes impls: "Report_implementations self = Inr (map JStr names)"
    and cr: "hget (results (summary self)) sq = Some cr"
    and outs: "\<forall>k \<in> set names. result_at (summary self) sq k \<noteq> None \<longrightarrow> test_outcome E self sq i k \<noteq> None"
  shows "\<exists>m. test_view E self cr (i, t) = Inr (t, m)
    \<and> distinct (map fst m)
    \<and> (\<forall>k. map_of m k = (if k \<in> set names then test_outcome E self sq i k else None))"
proof -
  have at: "result_at (summary self) sq k = hget cr k" for k
    using cr by (simp add: result_at_def)
  have "\<forall>k \<in> set names. \<forall>x. hget cr k = Some x \<longrightarrow> (\<exists>outs. results_attr E x = Inr outs \<and> i < length outs)"
  proof (intro ballI allI impI)
    fix k x assume k: "k \<in> set names" and x: "hget cr k = Some x"
    with outs have "test_outcome E self sq i k \<noteq> None" by (simp add: at)
    with x show "\<exists>outs. results_attr E x = Inr outs \<and> i < length outs"
      by (auto simp: test_outcome_def at split: sum.splits if_splits)
  qed
  from by_implementation_at_names [OF this, of "[]"] obtain m where
    m: "by_implementation_at E cr i [] (map JStr names) = Inr m" "distinct (map fst m)"
      "\<forall>k. map_of m k =
          (if k \<in> set names \<and> hget cr k \<noteq> None
           then (case hget cr k of None \<Rightarrow> None
                 | Some x \<Rightarrow> (case results_attr E x of Inl e \<Rightarrow> None | Inr outs \<Rightarrow> Some (outs ! i)))
           else map_of [] k)"
    by auto
  have "map_of m k = (if k \<in> set names then test_outcome E self sq i k else None)" for k
  proof (cases "k \<in> set names \<and> hget cr k \<noteq> None")
    case True
    then obtain x where x: "hget cr k = Some x" by auto
    with True outs have "test_outcome E self sq i k \<noteq> None" by (simp add: at)
    with x True m(3) show ?thesis
      by (auto simp: test_outcome_def at split: sum.splits if_splits)
  next
    case False
    with m(3) show ?thesis by (auto simp: test_outcome_def at)
  qed
  with m(1,2) impls show ?thesis by (simp add: test_view_def)
qed

lemma in_set_enumerate_0: "it \<in> set (enumerate 0 xs) \<Longrightarrow> fst it < length xs"
  by (cases it) (simp add: in_set_enumerate_eq)

lemma case_view_joined:
  assumes impls: "Report_implementations self = Inr (map JStr names)"
    and cr: "hget (results (summary self)) (fst sc) \<noteq> None"
    and outs: "\<forall>k \<in> set names. \<forall>i < length (tests (snd sc)).
        result_at (summary self) (fst sc) k \<noteq> None \<longrightarrow> test_outcome E self (fst sc) i k \<noteq> None"
  shows "\<exists>y. case_view E self sc = Inr y \<and> fst y = snd sc
    \<and> list_all2
        (\<lambda>it v. fst v = snd it \<and> distinct (map fst (snd v))
           \<and> (\<forall>k. map_of (snd v) k =
                 (if k \<in> set names then test_outcome E self (fst sc) (fst it) k else None)))
        (enumerate 0 (tests (snd sc))) (snd y)"
proof -
  from cr obtain c where c: "hget (results (summary self)) (fst sc) = Some c" by auto
  have "\<forall>it \<in> set (enumerate 0 (tests (snd sc))).
      \<exists>v. test_view E self c it = Inr v
        \<and> (fst v = snd it \<and> distinct (map fst (snd v))
           \<and> (\<forall>k. map_of (snd v) k =
                 (if k \<in> set names then test_outcome E self (fst sc) (fst it) k else None)))"
  proof
    fix it assume "it \<in> set (enumerate 0 (tests (snd sc)))"
    then have "fst it < length (tests (snd sc))" by (rule in_set_enumerate_0)
    with outs have "\<forall>k \<in> set names. result_at (summary self) (fst sc) k \<noteq> None \<longrightarrow>
        test_outcome E self (fst sc) (fst it) k \<noteq> None"
      by blast
    from test_view_joined [OF impls c this, of "snd it"]
    show "\<exists>v. test_view E self c it = Inr v
        \<and> (fst v = snd it \<and> distinct (map fst (snd v))
           \<and> (\<forall>k. map_of (snd v) k =
                 (if k \<in> set names then test_outcome E self (fst sc) (fst it) k else None)))"
      by auto
  qed
  from traverse_all2 [OF this] obtain vs where
    "traverse (test_view E self c) (enumerate 0 (tests (snd sc))) = Inr vs"
    "list_all2
        (\<lambda>it v. fst v = snd it \<and> distinct (map fst (snd v))
           \<and> (\<forall>k. map_of (snd v) k =
                 (if k \<in> set names then test_outcome E self (fst sc) (fst it) k else None)))
        (enumerate 0 (tests (snd sc))) vs"
    by blast
  with c show ?thesis by (simp add: case_view_def Summary_getitem_def)
qed

lemma sorted_items:
  "sorted (map fst (sort_key fst (hitems m)))"
  "distinct (map fst (sort_key fst (hitems m)))"
  "(k, v) \<in> set (sort_key fst (hitems m)) \<longleftrightarrow> hget m k = Some v"
proof -
  show "sorted (map fst (sort_key fst (hitems m)))"
    by (rule sorted_sort_key)
  have d: "distinct (map fst (hitems m))"
    by (simp add: hitems_def distinct_clearjunk)
  have "mset (map fst (sort_key fst (hitems m))) = mset (map fst (hitems m))"
    by simp
  with d show "distinct (map fst (sort_key fst (hitems m)))"
    by (metis mset_eq_imp_distinct_iff)
  have "(k, v) \<in> set (hitems m) \<longleftrightarrow> map_of (hitems m) k = Some v"
    using d by simp
  then show "(k, v) \<in> set (sort_key fst (hitems m)) \<longleftrightarrow> hget m k = Some v"
    by (simp add: hitems_def hget_def map_of_clearjunk)
qed

lemmas view_eval = cases_with_results_def hitems_def case_view_def Summary_getitem_def hget_def test_view_def
  Report_implementations_def RunMetadata_implementations_def dict_values_def example_metadata_def
  example_descriptor_def subscript_def hashable_key_def example_test_case_def results_attr_def
  enumerate_eq_zip

text \<open>
  Claim C4, as stated, fails. In the report of the stream below, the implementation \<^verbatim>\<open>bar\<close>
  produced a result for the case registered at 1, but the run metadata declares \<^verbatim>\<open>foo\<close> only:
  the mapping that \<^verbatim>\<open>cases_with_results\<close> produces for the test of that case is empty, since
  it is built from the declared implementations.
\<close>

theorem cases_with_results_counterexample:
  "from_input example_env [example_header draft7, example_case 1, example_result ''bar'' 1] =
     Inr \<lparr>cases = [(1, example_test_case)], metadata = example_metadata draft7,
          summary =
            \<lparr>results = [(1, [(''bar'', CaseResult ''bar'' 1 [TestFailed])])],
             by_implementation =
               [(''bar'', \<lparr>failed_tests = 1, errored_tests = 0, skipped_tests = 0\<rparr>)]\<rparr>,
          did_fail_fast = JBool False\<rparr>
   \<and> result_at
        \<lparr>results = [(1, [(''bar'', CaseResult ''bar'' 1 [TestFailed])])],
         by_implementation =
           [(''bar'', \<lparr>failed_tests = 1, errored_tests = 0, skipped_tests = 0\<rparr>)]\<rparr>
        1 ''bar'' = Some (CaseResult ''bar'' 1 [TestFailed])
   \<and> cases_with_results example_env
        \<lparr>cases = [(1, example_test_case)], metadata = example_metadata draft7,
          summary =
            \<lparr>results = [(1, [(''bar'', CaseResult ''bar'' 1 [TestFailed])])],
             by_implementation =
               [(''bar'', \<lparr>failed_tests = 1, errored_tests = 0, skipped_tests = 0\<rparr>)]\<rparr>,
          did_fail_fast = JBool False\<rparr> =
      ([(example_test_case, [(\<lparr>instance_of = JInt 12, valid = True\<rparr>, [])])], None)"
proof (intro conjI)
  show "from_input example_env [example_header draft7, example_case 1, example_result ''bar'' 1] =
     Inr \<lparr>cases = [(1, example_test_case)], metadata = example_metadata draft7,
          summary =
            \<lparr>results = [(1, [(''bar'', CaseResult ''bar'' 1 [TestFailed])])],
             by_implementation =
               [(''bar'', \<lparr>failed_tests = 1, errored_tests = 0, skipped_tests = 0\<rparr>)]\<rparr>,
          did_fail_fast = JBool False\<rparr>"
    by (simp add: from_input_def example_simps with_result_def hcontains_def hinsert_def
        hget_default_def Summary0_def seq_key_def Count0_def Let_def)
  show "result_at
        \<lparr>results = [(1, [(''bar'', CaseResult ''bar'' 1 [TestFailed])])],
         by_implementation =
           [(''bar'', \<lparr>failed_tests = 1, errored_tests = 0, skipped_tests = 0\<rparr>)]\<rparr>
        1 ''bar'' = Some (CaseResult ''bar'' 1 [TestFailed])"
    by (simp add: result_at_def hget_def)
  show "cases_with_results example_env
        \<lparr>cases = [(1, example_test_case)], metadata = example_metadata draft7,
          summary =
            \<lparr>results = [(1, [(''bar'', CaseResult ''bar'' 1 [TestFailed])])],
             by_implementation =
               [(''bar'', \<lparr>failed_tests = 1, errored_tests = 0, skipped_tests = 0\<rparr>)]\<rparr>,
          did_fail_fast = JBool False\<rparr> =
      ([(example_test_case, [(\<lparr>instance_of = JInt 12, valid = True\<rparr>, [])])], None)"
    by (simp add: view_eval)
qed

text \<open>
  A registered case for which the summary holds no result at all ends the iteration with
  \<^verbatim>\<open>KeyError\<close>, raised by \<^verbatim>\<open>self.summary[seq]\<close>.
\<close>

lemma cases_with_results_without_results:
  "from_input example_env [example_header draft7, example_case 1] =
     Inr \<lparr>cases = [(1, example_test_case)], metadata = example_metadata draft7,
          summary = Summary0, did_fail_fast = JBool False\<rparr>
   \<and> cases_with_results example_env
        \<lparr>cases = [(1, example_test_case)], metadata = example_metadata draft7,
          summary = Summary0, did_fail_fast = JBool False\<rparr> = ([], Some KeyError)"
  by (simp add: from_input_def example_simps hcontains_def hinsert_def seq_key_def view_eval Summary0_def)

text \<open>
  Claim C4, amended. Let the run metadata of a report declare implementations whose images
  are the strings \<open>names\<close>, let the summary hold an entry for every registered case, and let
  every result that a declared implementation has for a registered case have an outcome
  for each test of the case. Then \<^verbatim>\<open>cases_with_results\<close> raises nothing; it yields the
  registered cases, each once, in ascending Seq order; and with each case it yields its
  tests in order, each with a mapping whose keys are exactly the declared implementations
  that have a result for the case, and whose values are their outcomes for that test. A
  declared implementation without a result for the case is left out, and so is a result
  of an implementation that the run metadata does not declare.
\<close>

theorem cases_with_results_joined:
  "Report_implementations self = Inr (map JStr names)
     \<and> (\<forall>sc \<in> set (hitems (cases self)).
          hget (results (summary self)) (fst sc) \<noteq> None
          \<and> (\<forall>k \<in> set names. \<forall>i < length (tests (snd sc)).
                result_at (summary self) (fst sc) k \<noteq> None \<longrightarrow>
                test_outcome E self (fst sc) i k \<noteq> None)) \<longrightarrow>
   (\<exists>ys. cases_with_results E self = (ys, None)
      \<and> sorted (map fst (sort_key fst (hitems (cases self))))
      \<and> distinct (map fst (sort_key fst (hitems (cases self))))
      \<and> (\<forall>sq c. (sq, c) \<in> set (sort_key fst (hitems (cases self))) \<longleftrightarrow> hget (cases self) sq = Some c)
      \<and> list_all2
          (\<lambda>sc y. fst y = snd sc
             \<and> list_all2
                 (\<lambda>it v. fst v = snd it \<and> distinct (map fst (snd v))
                    \<and> (\<forall>k. map_of (snd v) k =
                          (if k \<in> set names then test_outcome E self (fst sc) (fst it) k else None))
                    \<and> dom (map_of (snd v)) =
                        {k \<in> set names. result_at (summary self) (fst sc) k \<noteq> None})
                 (enumerate 0 (tests (snd sc))) (snd y))
          (sort_key fst (hitems (cases self))) ys)"
proof
  assume a: "Report_implementations self = Inr (map JStr names)
     \<and> (\<forall>sc \<in> set (hitems (cases self)).
          hget (results (summary self)) (fst sc) \<noteq> None
          \<and> (\<forall>k \<in> set names. \<forall>i < length (tests (snd sc)).
                result_at (summary self) (fst sc) k \<noteq> None \<longrightarrow>
                test_outcome E self (fst sc) i k \<noteq> None))"
  let ?P = "\<lambda>sc it v. fst v = snd it \<and> distinct (map fst (snd v))
      \<and> (\<forall>k. map_of (snd v) k =
            (if k \<in> set names then test_outcome E self (fst sc) (fst it) k else None))"
  let ?Q = "\<lambda>sc it v. fst v = snd it \<and> distinct (map fst (snd v))
      \<and> (\<forall>k. map_of (snd v) k =
            (if k \<in> set names then test_outcome E self (fst sc) (fst it) k else None))
      \<and> dom (map_of (snd v)) = {k \<in> set names. result_at (summary self) (fst sc) k \<noteq> None}"
  have "\<forall>sc \<in> set (sort_key fst (hitems (cases self))).
      \<exists>y. case_view E self sc = Inr y
        \<and> (fst y = snd sc \<and> list_all2 (?Q sc) (enumerate 0 (tests (snd sc))) (snd y))"
  proof
    fix sc assume "sc \<in> set (sort_key fst (hitems (cases self)))"
    then have sc: "sc \<in> set (hitems (cases self))" by simp
    with a have cr: "hget (results (summary self)) (fst sc) \<noteq> None"
      and outs: "\<forall>k \<in> set names. \<forall>i < length (tests (snd sc)).
        result_at (summary self) (fst sc) k \<noteq> None \<longrightarrow> test_outcome E self (fst sc) i k \<noteq> None"
      by blast+
    from a have impls: "Report_implementations self = Inr (map JStr names)" by simp
    from case_view_joined [OF impls cr outs] obtain y where
      y: "case_view E self sc = Inr y" "fst y = snd sc"
        "list_all2 (?P sc) (enumerate 0 (tests (snd sc))) (snd y)"
      by blast
    have q: "?Q sc it v" if "it \<in> set (enumerate 0 (tests (snd sc)))" and p: "?P sc it v" for it v
    proof -
      from that(1) have i: "fst it < length (tests (snd sc))" by (rule in_set_enumerate_0)
      have "map_of (snd v) k \<noteq> None \<longleftrightarrow> k \<in> set names \<and> result_at (summary self) (fst sc) k \<noteq> None" for k
      proof (cases "k \<in> set names")
        case True
        with outs i have "result_at (summary self) (fst sc) k \<noteq> None \<longrightarrow>
            test_outcome E self (fst sc) (fst it) k \<noteq> None"
          by blast
        moreover have "test_outcome E self (fst sc) (fst it) k \<noteq> None \<longrightarrow>
            result_at (summary self) (fst sc) k \<noteq> None"
          by (auto simp: test_outcome_def split: option.splits)
        ultimately show ?thesis using p True by auto
      next
        case False
        with p show ?thesis by simp
      qed
      then have "dom (map_of (snd v)) = {k \<in> set names. result_at (summary self) (fst sc) k \<noteq> None}"
        by (auto simp: dom_def)
      with p show ?thesis by simp
    qed
    have "list_all2 (?Q sc) (enumerate 0 (tests (snd sc))) (snd y)"
      using y(3)
    proof (rule list.rel_mono_strong)
      fix it v
      assume "it \<in> set (enumerate 0 (tests (snd sc)))" and "?P sc it v"
      then show "?Q sc it v" by (rule q)
    qed
    with y(1,2) show "\<exists>y. case_view E self sc = Inr y
        \<and> (fst y = snd sc \<and> list_all2 (?Q sc) (enumerate 0 (tests (snd sc))) (snd y))"
      by blast
  qed
  from yield_all_all2 [OF this] obtain ys where
    "yield_all (case_view E self) (sort_key fst (hitems (cases self))) = (ys, None)"
    "list_all2 (\<lambda>sc y. fst y = snd sc \<and> list_all2 (?Q sc) (enumerate 0 (tests (snd sc))) (snd y))
       (sort_key fst (hitems (cases self))) ys"
    by blast
  then show "\<exists>ys. cases_with_results E self = (ys, None)
      \<and> sorted (map fst (sort_key fst (hitems (cases self))))
      \<and> distinct (map fst (sort_key fst (hitems (cases self))))
      \<and> (\<forall>sq c. (sq, c) \<in> set (sort_key fst (hitems (cases self))) \<longleftrightarrow> hget (cases self) sq = Some c)
      \<and> list_all2
          (\<lambda>sc y. fst y = snd sc \<and> list_all2 (?Q sc) (enumerate 0 (tests (snd sc))) (snd y))
          (sort_key fst (hitems (cases self))) ys"
    using sorted_items [where m = "cases self"] by (auto simp: cases_with_results_def)
qed

theorem cases_with_results_joined_witness:
  "Report_implementations
        \<lparr>cases = [(1, example_test_case)], metadata = example_metadata draft7,
          summary =
            \<lparr>results = [(1, [(''foo'', CaseResult ''foo'' 1 [TestFailed])])],
             by_implementation =
               [(''foo'', \<lparr>failed_tests = 1, errored_tests = 0, skipped_tests = 0\<rparr>)]\<rparr>,
          did_fail_fast = JBool False\<rparr> = Inr (map JStr [''foo''])
   \<and> hitems [(1::int, example_test_case)] = [(1, example_test_case)]
   \<and> hget [(1::int, [(''foo'', CaseResult ''foo'' 1 [TestFailed])])] 1 \<noteq> None
   \<and> test_outcome example_env
        \<lparr>cases = [(1, example_test_case)], metadata = example_metadata draft7,
          summary =
            \<lparr>results = [(1, [(''foo'', CaseResult ''foo'' 1 [TestFailed])])],
             by_implementation =
               [(''foo'', \<lparr>failed_tests = 1, errored_tests = 0, skipped_tests = 0\<rparr>)]\<rparr>,
          did_fail_fast = JBool False\<rparr> 1 0 ''foo'' = Some TestFailed
   \<and> cases_with_results example_env
        \<lparr>cases = [(1, example_test_case)], metadata = example_metadata draft7,
          summary =
            \<lparr>results = [(1, [(''foo'', CaseResult ''foo'' 1 [TestFailed])])],
             by_implementation =
               [(''foo'', \<lparr>failed_tests = 1, errored_tests = 0, skipped_tests = 0\<rparr>)]\<rparr>,
          did_fail_fast = JBool False\<rparr> =
      ([(example_test_case, [(\<lparr>instance_of = JInt 12, valid = True\<rparr>, [(''foo'', TestFailed)])])], None)"
  using cases_with_results_joined
    [of "\<lparr>cases = [(1, example_test_case)], metadata = example_metadata draft7,
          summary =
            \<lparr>results = [(1, [(''foo'', CaseResult ''foo'' 1 [TestFailed])])],
             by_implementation =
               [(''foo'', \<lparr>failed_tests = 1, errored_tests = 0, skipped_tests = 0\<rparr>)]\<rparr>,
          did_fail_fast = JBool False\<rparr>" "[''foo'']" example_env]
  by (simp add: view_eval test_outcome_def result_at_def)

subsection \<open>The rounding is to nearest\<close>

lemma round_half_even_nearest:
  assumes "0 < d"
  shows "\<bar>2 * (x - round_half_even x d * d)\<bar> \<le> d"
proof -
  define q r where "q = x div d" and "r = x mod d"
  have x: "x = d * q + r" by (simp add: q_def r_def)
  have r: "0 \<le> r" "r < d" using assms by (simp_all add: r_def)
  have a: "x - q * d = r"
    using x by (simp add: algebra_simps)
  have b: "x - (q + 1) * d = r - d"
    using x by (simp add: algebra_simps)
  consider (down) "round_half_even x d = q" "2 * r \<le> d"
    | (up) "round_half_even x d = q + 1" "d \<le> 2 * r"
    by (cases "2 * r < d"; cases "d < 2 * r"; cases "even q")
      (simp_all add: round_half_even_def Let_def q_def [symmetric] r_def [symmetric])
  then show ?thesis
  proof cases
    case down
    show ?thesis unfolding down(1) a using r down(2) by (simp add: abs_le_iff)
  next
    case up
    show ?thesis unfolding up(1) b using r up(2) by (simp add: abs_le_iff)
  qed
qed

lemma pow2_powi: "0 \<le> k \<Longrightarrow> (2::rat) ^ nat k = 2 powi k"
  by (simp add: power_int_def)

lemma bit_length_powi:
  assumes "0 < n"
  shows "(2::rat) powi (bit_length n - 1) \<le> of_int n" "of_int n < (2::rat) powi bit_length n"
proof -
  from bit_length_bounds [OF assms] have b: "0 < bit_length n" "2 ^ nat (bit_length n - 1) \<le> n"
    "n < 2 ^ nat (bit_length n)"
    by simp_all
  have "(of_int (2 ^ nat (bit_length n - 1)) :: rat) \<le> of_int n"
    using b(2) by (simp only: of_int_le_iff)
  then show "(2::rat) powi (bit_length n - 1) \<le> of_int n"
    using b(1) by (simp add: power_int_def)
  have "(of_int n :: rat) < of_int (2 ^ nat (bit_length n))"
    using b(3) by (simp only: of_int_less_iff)
  then show "of_int n < (2::rat) powi bit_length n"
    using b(1) by (simp add: power_int_def)
qed

lemma ilog2_floor_log:
  assumes "0 < a" and "0 < b"
  shows "(2::rat) powi ilog2 a b \<le> of_int a / of_int b"
    and "of_int a / of_int b < (2::rat) powi (ilog2 a b + 1)"
proof -
  define k where "k = bit_length a - bit_length b"
  define A B :: rat where "A = of_int a" and "B = of_int b"
  have pos: "0 < A" "0 < B" using assms by (simp_all add: A_def B_def)
  have al: "2 powi (bit_length a - 1) \<le> A" and au: "A < 2 powi bit_length a"
    using bit_length_powi [OF assms(1)] by (simp_all add: A_def)
  have bl: "2 powi (bit_length b - 1) \<le> B" and bu: "B < 2 powi bit_length b"
    using bit_length_powi [OF assms(2)] by (simp_all add: B_def)
  have up: "A < 2 powi (k + 1) * B"
  proof -
    have "(2::rat) powi bit_length a = 2 powi (k + 1) * 2 powi (bit_length b - 1)"
      by (simp add: k_def flip: power_int_add)
    also have "\<dots> \<le> 2 powi (k + 1) * B"
      using bl by (simp add: mult_left_mono)
    finally show ?thesis using au by simp
  qed
  have lo: "2 powi (k - 1) * B < A"
  proof -
    have "2 powi (k - 1) * B < 2 powi (k - 1) * 2 powi bit_length b"
      using bu by (simp add: mult_strict_left_mono)
    also have "\<dots> = (2::rat) powi (bit_length a - 1)"
      by (simp add: k_def flip: power_int_add)
    finally show ?thesis using al by simp
  qed
  have cond: "(if 0 \<le> k then b * 2 ^ nat k \<le> a else b \<le> a * 2 ^ nat (- k)) \<longleftrightarrow> 2 powi k * B \<le> A"
  proof (cases "0 \<le> k")
    case True
    have "b * 2 ^ nat k \<le> a \<longleftrightarrow> (of_int (b * 2 ^ nat k) :: rat) \<le> of_int a"
      by (simp only: of_int_le_iff)
    with True show ?thesis
      by (simp add: A_def B_def power_int_def mult.commute)
  next
    case False
    have "b \<le> a * 2 ^ nat (- k) \<longleftrightarrow> (of_int b :: rat) \<le> of_int (a * 2 ^ nat (- k))"
      by (simp only: of_int_le_iff)
    with False show ?thesis
      by (simp add: A_def B_def power_int_def field_simps)
  qed
  have res: "ilog2 a b = (if 2 powi k * B \<le> A then k else k - 1)"
    using cond by (simp add: ilog2_def Let_def k_def [symmetric])
  show "(2::rat) powi ilog2 a b \<le> of_int a / of_int b"
    using lo pos by (auto simp: res A_def [symmetric] B_def [symmetric] field_simps)
  show "of_int a / of_int b < (2::rat) powi (ilog2 a b + 1)"
    using up pos by (auto simp: res A_def [symmetric] B_def [symmetric] field_simps)
qed

lemma abs_double_le:
  fixes y c :: rat
  shows "\<bar>2 * y\<bar> \<le> c \<Longrightarrow> \<bar>y\<bar> \<le> c / 2"
  by (simp add: abs_mult)

lemma round_to_double_nearest:
  assumes "0 < b"
  shows "\<bar>of_int a / of_int b - float_val (round_to_double a b)\<bar>
    \<le> (2::rat) powi snd (round_to_double a b) / 2"
proof (cases "a = 0")
  case True
  then show ?thesis by (simp add: round_to_double_def float_val_def)
next
  case False
  define e where "e = max (ilog2 \<bar>a\<bar> b) (- 1022) - 52"
  define B :: rat where "B = of_int b"
  have B: "0 < B" using assms by (simp add: B_def)
  show ?thesis
  proof (cases "e \<le> 0")
    case True
    define K :: int where "K = 2 ^ nat (- e)"
    define n where "n = round_half_even (a * K) b"
    have K: "0 < K" by (simp add: K_def)
    have rd: "round_to_double a b = (n, e)"
      using False True by (simp add: round_to_double_def Let_def e_def n_def K_def)
    have powi: "(2::rat) powi e = 1 / of_int K"
      using True by (simp add: power_int_def K_def inverse_eq_divide power_one_over)
    have val: "float_val (n, e) = of_int n / of_int K"
      using True by (cases "e = 0") (simp_all add: float_val_def K_def)
    have "\<bar>2 * (a * K - n * b)\<bar> \<le> b"
      using round_half_even_nearest [OF assms, of "a * K"] by (simp add: n_def)
    then have "(of_int \<bar>2 * (a * K - n * b)\<bar> :: rat) \<le> of_int b"
      by (simp only: of_int_le_iff)
    then have "\<bar>2 * (of_int a * of_int K - of_int n * B)\<bar> \<le> B"
      by (simp add: B_def)
    then have "\<bar>of_int a * of_int K - of_int n * B\<bar> \<le> B / 2"
      by (rule abs_double_le)
    then have "\<bar>of_int a * of_int K - of_int n * B\<bar> / (B * of_int K) \<le> (B / 2) / (B * of_int K)"
      using B K by (intro divide_right_mono) simp_all
    moreover have "\<bar>of_int a * of_int K - of_int n * B\<bar> / (B * of_int K) =
        \<bar>of_int a / B - of_int n / of_int K\<bar>"
    proof -
      have "of_int a / B - of_int n / of_int K = (of_int a * of_int K - of_int n * B) / (B * of_int K)"
        using B K by (simp add: field_simps)
      then show ?thesis using B K by (simp add: abs_mult)
    qed
    moreover have "(B / 2) / (B * of_int K) = (1 / of_int K) / 2"
      using B K by simp
    ultimately show ?thesis
      by (simp add: rd val powi B_def)
  next
    case False
    define K :: int where "K = 2 ^ nat e"
    define n where "n = round_half_even a (b * K)"
    have K: "0 < K" by (simp add: K_def)
    have rd: "round_to_double a b = (n, e)"
      using \<open>a \<noteq> 0\<close> False by (simp add: round_to_double_def Let_def e_def n_def K_def)
    have powi: "(2::rat) powi e = of_int K"
      using False by (simp add: power_int_def K_def)
    have val: "float_val (n, e) = of_int n * of_int K"
      using False by (simp add: float_val_def K_def)
    have "0 < b * K" using assms K by simp
    from round_half_even_nearest [OF this, of a] have "\<bar>2 * (a - n * (b * K))\<bar> \<le> b * K"
      by (simp add: n_def)
    then have "(of_int \<bar>2 * (a - n * (b * K))\<bar> :: rat) \<le> of_int (b * K)"
      by (simp only: of_int_le_iff)
    then have "\<bar>2 * (of_int a - of_int n * (B * of_int K))\<bar> \<le> B * of_int K"
      by (simp add: B_def)
    then have "\<bar>of_int a - of_int n * (B * of_int K)\<bar> \<le> B * of_int K / 2"
      by (rule abs_double_le)
    then have "\<bar>of_int a - of_int n * (B * of_int K)\<bar> / B \<le> (B * of_int K / 2) / B"
      using B by (intro divide_right_mono) simp_all
    moreover have "\<bar>of_int a - of_int n * (B * of_int K)\<bar> / B = \<bar>of_int a / B - of_int n * of_int K\<bar>"
    proof -
      have "of_int a / B - of_int n * of_int K = (of_int a - of_int n * (B * of_int K)) / B"
        using B by (simp add: field_simps)
      then show ?thesis using B by simp
    qed
    moreover have "(B * of_int K / 2) / B = of_int K / 2"
      using B by simp
    ultimately show ?thesis
      by (simp add: rd val powi B_def)
  qed
qed

text \<open>
  The percentage is computed in floating point and then truncated: with 29 of 100 tests
  passed, \<^verbatim>\<open>(29 / 100) * 100\<close> is \<^verbatim>\<open>28.999999999999996\<close>, and the badge shows 28.
\<close>

lemma badge_rgb_float_truncation:
  "passed_tests 100 \<lparr>failed_tests = 71, errored_tests = 0, skipped_tests = 0\<rparr> = 29
   \<and> badge_rgb 100 \<lparr>failed_tests = 71, errored_tests = 0, skipped_tests = 0\<rparr> = Inr (72, 28, 0)"
  by (simp add: float_eval)

end
